theory Spec2Isabelle
  imports Complex_Main "HOL-Library.Word"
begin

section \<open>Tokens and errors\<close>

text \<open>
  The token kinds of \<^verbatim>\<open>DefToken\<close>, in the order in which \<^verbatim>\<open>DefParser::tokenNames\<close> lists
  them. The source combines kinds into bit masks with \<^verbatim>\<open>|\<close>; a mask is modelled as the
  list of its kinds.
\<close>

datatype DefToken =
    Integer | Decimal | QuotedString | OParenthesis | CParenthesis | OBrace | CBrace
  | Word | ODefinition | CDefinition | Semicolon | Newline | Comma | Equality | Minus | Eof

text \<open>
  Modelled from the spec: the class \<^verbatim>\<open>Token\<close> is not among the sources. A token has a kind,
  the text between its begin and end pointers, a byte offset, a line and a column (spec,
  section 3).
\<close>

record Token =
  ttype :: DefToken
  tdata :: string
  toffset :: nat
  tline :: nat
  tcolumn :: nat

text \<open>
  Modelled from the spec: \<^verbatim>\<open>ParserException\<close> is declared outside the sources. It is the
  exception of both the lexical and the syntax errors and carries a line, a column and a
  message (spec, section 7).
\<close>

datatype error = ParserException nat nat string

definition hasType :: "Token \<Rightarrow> DefToken list \<Rightarrow> bool" where
  "hasType token typeMask = (ttype token \<in> set typeMask)"

fun tokenNames :: "DefToken \<Rightarrow> string" where
  "tokenNames Integer = ''integer''"
| "tokenNames Decimal = ''decimal''"
| "tokenNames QuotedString = ''quoted string''"
| "tokenNames OParenthesis = [CHR 0x27, CHR ''('', CHR 0x27]"
| "tokenNames CParenthesis = [CHR 0x27, CHR '')'', CHR 0x27]"
| "tokenNames OBrace = [CHR 0x27, CHR ''{'', CHR 0x27]"
| "tokenNames CBrace = [CHR 0x27, CHR ''}'', CHR 0x27]"
| "tokenNames Word = ''word''"
| "tokenNames ODefinition = [CHR 0x27, CHR ''/'', CHR ''*'', CHR 0x27]"
| "tokenNames CDefinition = [CHR 0x27, CHR ''*'', CHR ''/'', CHR 0x27]"
| "tokenNames Semicolon = [CHR 0x27, CHR '';'', CHR 0x27]"
| "tokenNames Newline = ''newline''"
| "tokenNames Comma = [CHR 0x27, CHR '','', CHR 0x27]"
| "tokenNames Equality = [CHR 0x27, CHR ''='', CHR 0x27]"
| "tokenNames Minus = [CHR 0x27, CHR ''-'', CHR 0x27]"
| "tokenNames Eof = ''end of file''"

section \<open>The scanner\<close>

text \<open>
  Modelled from the spec: the base class \<^verbatim>\<open>Tokenizer\<close> is not among the sources, only
  \<^verbatim>\<open>DefTokenizer::emitToken\<close> is. Its state is the cursor, the line and the column
  (spec, section 3). The cursor is kept as the characters from the cursor to the end of
  the buffer (\<open>m_cur\<close>) together with the number of characters before it (\<open>m_offs\<close>).
  Lines and columns are 1-based. The definitions of this section before \<^verbatim>\<open>emitToken\<close> are the
  members of that class that \<^verbatim>\<open>emitToken\<close> calls.
\<close>

record TokenizerState =
  m_cur :: string
  m_offs :: nat
  m_line :: nat
  m_column :: nat

definition Tokenizer :: "string \<Rightarrow> TokenizerState" where
  "Tokenizer str = \<lparr>m_cur = str, m_offs = 0, m_line = 1, m_column = 1\<rparr>"

definition eof :: "TokenizerState \<Rightarrow> bool" where
  "eof t = (m_cur t = [])"

definition curChar :: "TokenizerState \<Rightarrow> char" where
  "curChar t = (case m_cur t of [] \<Rightarrow> CHR 0x00 | c # _ \<Rightarrow> c)"

text \<open>
  Modelled from the spec: \<^verbatim>\<open>lookAhead\<close>, the one-character lookahead (spec, section 4.1): the
  character after the current one; the NUL character when there is none.
\<close>

definition lookAhead :: "TokenizerState \<Rightarrow> char" where
  "lookAhead t = (case m_cur t of _ # c # _ \<Rightarrow> c | _ \<Rightarrow> CHR 0x00)"

definition Whitespace :: string where
  "Whitespace = [CHR '' '', CHR 0x09, CHR 0x0A, CHR 0x0D]"

definition isAnyOf :: "char \<Rightarrow> string \<Rightarrow> bool" where
  "isAnyOf c allow = (c \<in> set allow)"

definition isWhitespace :: "char \<Rightarrow> bool" where
  "isWhitespace c = isAnyOf c Whitespace"

definition isDigit :: "char \<Rightarrow> bool" where
  "isDigit c = isAnyOf c ''0123456789''"

text \<open>
  Modelled from the spec: \<^verbatim>\<open>advance\<close>, one step of the cursor. A line feed, or a carriage return that no line feed follows,
  starts a new line; every other character advances the column. At the end of the input
  the state stays as it is.
\<close>

definition advance :: "TokenizerState \<Rightarrow> TokenizerState" where
  "advance t =
     (case m_cur t of
        [] \<Rightarrow> t
      | c # cs \<Rightarrow>
          if c = CHR 0x0A \<or> (c = CHR 0x0D \<and> lookAhead t \<noteq> CHR 0x0A)
          then \<lparr>m_cur = cs, m_offs = m_offs t + 1, m_line = m_line t + 1, m_column = 1\<rparr>
          else \<lparr>m_cur = cs, m_offs = m_offs t + 1, m_line = m_line t, m_column = m_column t + 1\<rparr>)"

lemma length_advance: "m_cur t \<noteq> [] \<Longrightarrow> length (m_cur (advance t)) < length (m_cur t)"
  by (cases "m_cur t") (simp_all add: advance_def)

lemma length_advance_le: "length (m_cur (advance t)) \<le> length (m_cur t)"
  by (cases "m_cur t") (simp_all add: advance_def)

text \<open>
  Modelled from the spec: the loop \<^verbatim>\<open>while (!eof() && p(curChar())) advance();\<close> by which the
  scans below read and discard characters.
\<close>

function advanceWhile :: "(char \<Rightarrow> bool) \<Rightarrow> TokenizerState \<Rightarrow> TokenizerState" where
  "advanceWhile p t = (if \<not> eof t \<and> p (curChar t) then advanceWhile p (advance t) else t)"
  by pat_completeness auto
termination
  by (relation "measure (\<lambda>(p, t). length (m_cur t))") (auto simp: eof_def length_advance)

declare advanceWhile.simps [simp del]

text \<open>Modelled from the spec: \<^verbatim>\<open>advance()\<close> repeated \<open>n\<close> times.\<close>

fun advanceN :: "nat \<Rightarrow> TokenizerState \<Rightarrow> TokenizerState" where
  "advanceN 0 t = t"
| "advanceN (Suc n) t = advanceN n (advance t)"

definition discardWhile :: "string \<Rightarrow> TokenizerState \<Rightarrow> TokenizerState" where
  "discardWhile allow t = advanceWhile (\<lambda>c. isAnyOf c allow) t"

definition discardUntil :: "string \<Rightarrow> TokenizerState \<Rightarrow> TokenizerState" where
  "discardUntil delims t = advanceWhile (\<lambda>c. \<not> isAnyOf c delims) t"

text \<open>
  Modelled from the spec: the text between two cursor positions of the same buffer, \<^verbatim>\<open>std::string(c, e)\<close>: \<open>t\<close> is
  the state at \<open>c\<close> and \<open>t'\<close> the later state at \<open>e\<close>.
\<close>

definition textBetween :: "TokenizerState \<Rightarrow> TokenizerState \<Rightarrow> string" where
  "textBetween t t' = take (m_offs t' - m_offs t) (m_cur t)"

text \<open>
  Modelled from the spec: \<^verbatim>\<open>readInteger\<close>, the integer scan (spec, section 4.1): an optional sign and at least one digit, ended by the end of the input or
  by a delimiter. \<open>None\<close> is the source's \<^verbatim>\<open>nullptr\<close>: nothing was read and the cursor did
  not move.
\<close>

definition readInteger :: "string \<Rightarrow> TokenizerState \<Rightarrow> TokenizerState option" where
  "readInteger delims t =
     (let t1 = (if curChar t = CHR ''+'' \<or> curChar t = CHR ''-'' then advance t else t);
          t2 = advanceWhile isDigit t1
      in if \<not> length (m_cur t2) < length (m_cur t1) then None
         else if eof t2 \<or> isAnyOf (curChar t2) delims then Some t2
         else None)"

text \<open>
  Modelled from the spec: \<^verbatim>\<open>readDecimal\<close>, the decimal scan (spec, section 4.1): an optional sign, digits, optionally a point and more digits, with at
  least one digit in all, ended by the end of the input or by a delimiter.
\<close>

definition readDecimal :: "string \<Rightarrow> TokenizerState \<Rightarrow> TokenizerState option" where
  "readDecimal delims t =
     (let t1 = (if curChar t = CHR ''+'' \<or> curChar t = CHR ''-'' then advance t else t);
          t2 = advanceWhile isDigit t1;
          t3 = (if curChar t2 = CHR ''.'' then advance t2 else t2);
          t4 = advanceWhile isDigit t3
      in if \<not> (length (m_cur t2) < length (m_cur t1) \<or> length (m_cur t4) < length (m_cur t3))
         then None
         else if eof t4 \<or> isAnyOf (curChar t4) delims then Some t4
         else None)"

text \<open>
  Modelled from the spec: \<^verbatim>\<open>readUntil\<close>, the bare word scan up to a delimiter (spec, section
  4.1): the current character and every following character up to the next
  delimiter. It reads nothing only at the end of the input.
\<close>

definition readUntil :: "string \<Rightarrow> TokenizerState \<Rightarrow> TokenizerState option" where
  "readUntil delims t =
     (if eof t then None
      else Some (advanceWhile (\<lambda>c. \<not> isAnyOf c delims) (advance t)))"

text \<open>
  Modelled from the spec: \<^verbatim>\<open>readQuotedString\<close>, entered after the opening quote (spec, section
  4.1): reads up to the closing quote and
  steps over it. The result is the state at the closing quote (the end pointer of the
  token) and the state after it. A missing closing quote is an error.
\<close>

definition readQuotedString ::
  "TokenizerState \<Rightarrow> (error \<times> TokenizerState) + (TokenizerState \<times> TokenizerState)" where
  "readQuotedString t =
     (let e = advanceWhile (\<lambda>c. c \<noteq> CHR 0x22) t
      in if eof e
         then Inl (ParserException (m_line e) (m_column e) ''Unexpected end of file'', e)
         else Inr (e, advance e))"

subsection \<open>\<^verbatim>\<open>DefTokenizer::emitToken\<close>\<close>

definition WordDelims :: string where
  "WordDelims = [CHR '' '', CHR 0x09, CHR 0x0A, CHR 0x0D] @ ''()[]{};,=''"

text \<open>
  The result of a scanner or parser operation: the exception thrown together with the
  state in which it left the object, or the value returned together with the new state.
\<close>

type_synonym ('a, 's) result = "(error \<times> 's) + ('a \<times> 's)"

text \<open>
  \<^verbatim>\<open>Token(type, c, c + 1, offset(c), startLine, startColumn)\<close> after one \<^verbatim>\<open>advance()\<close>: the
  body shared by the single-character cases of the switch.
\<close>

definition singleCharToken :: "DefToken \<Rightarrow> TokenizerState \<Rightarrow> (Token, TokenizerState) result" where
  "singleCharToken ty t =
     Inr (\<lparr>ttype = ty, tdata = take 1 (m_cur t), toffset = m_offs t,
           tline = m_line t, tcolumn = m_column t\<rparr>, advance t)"

text \<open>
  The switch of \<^verbatim>\<open>emitToken\<close> falls through from the case of \<^verbatim>\<open>'/'\<close> into the case of
  \<^verbatim>\<open>'*'\<close>, and from there into the case of \<^verbatim>\<open>'('\<close>; from the case of \<^verbatim>\<open>'-'\<close> into the
  default case; from the case of the carriage return into the case of the line feed. Each
  case label that is entered by falling through is a definition of its own.
\<close>

definition caseOParenthesis :: "TokenizerState \<Rightarrow> (Token, TokenizerState) result" where
  "caseOParenthesis t = singleCharToken OParenthesis t"

definition caseStar :: "TokenizerState \<Rightarrow> (Token, TokenizerState) result" where
  "caseStar t =
     (if lookAhead t = CHR ''/''
      then (let t' = advance t
            in Inr (\<lparr>ttype = CDefinition, tdata = textBetween t t', toffset = m_offs t,
                     tline = m_line t, tcolumn = m_column t\<rparr>, t'))
      else caseOParenthesis t)"

definition caseNewline :: "TokenizerState \<Rightarrow> TokenizerState \<Rightarrow> (Token, TokenizerState) result" where
  "caseNewline t t1 =
     Inr (\<lparr>ttype = Newline, tdata = take 1 (m_cur t), toffset = m_offs t,
           tline = m_line t, tcolumn = m_column t\<rparr>, advance t1)"

definition caseDefault :: "TokenizerState \<Rightarrow> (Token, TokenizerState) result" where
  "caseDefault t =
     (case readInteger WordDelims t of
        Some e \<Rightarrow> Inr (\<lparr>ttype = Integer, tdata = textBetween t e, toffset = m_offs t,
                        tline = m_line t, tcolumn = m_column t\<rparr>, e)
      | None \<Rightarrow>
         (case readDecimal WordDelims t of
            Some e \<Rightarrow> Inr (\<lparr>ttype = Decimal, tdata = textBetween t e, toffset = m_offs t,
                            tline = m_line t, tcolumn = m_column t\<rparr>, e)
          | None \<Rightarrow>
             (case readUntil WordDelims t of
                None \<Rightarrow> Inl (ParserException (m_line t) (m_column t)
                                (''Unexpected character: '' @ take 1 (m_cur t)), t)
              | Some e \<Rightarrow> Inr (\<lparr>ttype = Word, tdata = textBetween t e, toffset = m_offs t,
                                tline = m_line t, tcolumn = m_column t\<rparr>, e))))"

lemma length_advanceWhile_le: "length (m_cur (advanceWhile p t)) \<le> length (m_cur t)"
proof (induction p t rule: advanceWhile.induct)
  case (1 p t)
  show ?case
  proof (cases "\<not> eof t \<and> p (curChar t)")
    case True
    with 1 have "length (m_cur (advanceWhile p (advance t))) \<le> length (m_cur (advance t))"
      by simp
    also have "\<dots> \<le> length (m_cur t)" by (rule length_advance_le)
    finally show ?thesis using True by (subst advanceWhile.simps) simp
  next
    case False
    then show ?thesis by (subst advanceWhile.simps) auto
  qed
qed

lemma length_advanceWhile_less:
  assumes "\<not> eof t" and "p (curChar t)"
  shows "length (m_cur (advanceWhile p t)) < length (m_cur t)"
proof -
  have "advanceWhile p t = advanceWhile p (advance t)"
    using assms by (subst advanceWhile.simps) simp
  moreover have "length (m_cur (advanceWhile p (advance t))) \<le> length (m_cur (advance t))"
    by (rule length_advanceWhile_le)
  moreover have "length (m_cur (advance t)) < length (m_cur t)"
    using assms(1) by (simp add: eof_def length_advance)
  ultimately show ?thesis by simp
qed

function emitToken :: "TokenizerState \<Rightarrow> (Token, TokenizerState) result" where
  "emitToken t =
     (if eof t
      then Inr (\<lparr>ttype = Eof, tdata = [], toffset = m_offs t + length (m_cur t),
                 tline = m_line t, tcolumn = m_column t\<rparr>, t)
      else if curChar t = CHR ''/'' then
        (if lookAhead t = CHR ''*''
         then (let t' = advanceWhile (\<lambda>c. \<not> isWhitespace c) (advance t)
               in Inr (\<lparr>ttype = ODefinition, tdata = textBetween t t', toffset = m_offs t,
                        tline = m_line t, tcolumn = m_column t\<rparr>, t'))
         else if lookAhead t = CHR ''/''
         then emitToken (discardUntil [CHR 0x0A, CHR 0x0D] t)
         else caseStar t)
      else if curChar t = CHR ''*'' then caseStar t
      else if curChar t = CHR ''('' then caseOParenthesis t
      else if curChar t = CHR '')'' then singleCharToken CParenthesis t
      else if curChar t = CHR ''{'' then singleCharToken OBrace t
      else if curChar t = CHR ''}'' then singleCharToken CBrace t
      else if curChar t = CHR ''='' then singleCharToken Equality t
      else if curChar t = CHR '';'' then singleCharToken Semicolon t
      else if curChar t = CHR 0x0D
      then caseNewline t (if lookAhead t = CHR 0x0A then advance t else t)
      else if curChar t = CHR 0x0A then caseNewline t t
      else if curChar t = CHR '','' then singleCharToken Comma t
      else if curChar t = CHR '' '' \<or> curChar t = CHR 0x09
      then emitToken (discardWhile [CHR '' '', CHR 0x09] t)
      else if curChar t = CHR 0x22
      then (let c = advance t
            in case readQuotedString c of
                 Inl x \<Rightarrow> Inl x
               | Inr (e, t') \<Rightarrow>
                   Inr (\<lparr>ttype = QuotedString, tdata = textBetween c e, toffset = m_offs c,
                         tline = m_line t, tcolumn = m_column t\<rparr>, t'))
      else if curChar t = CHR ''-'' \<and> isWhitespace (lookAhead t)
      then singleCharToken Minus t
      else caseDefault t)"
  by pat_completeness auto
termination
proof (relation "measure (\<lambda>t. length (m_cur t))")
  show "wf (measure (\<lambda>t. length (m_cur t)))" by simp
next
  fix t assume "\<not> eof t" "curChar t = CHR ''/''"
  then have "length (m_cur (advanceWhile (\<lambda>c. \<not> isAnyOf c [CHR 0x0A, CHR 0x0D]) t)) < length (m_cur t)"
    by (intro length_advanceWhile_less) (simp_all add: isAnyOf_def)
  then show "(discardUntil [CHR 0x0A, CHR 0x0D] t, t) \<in> measure (\<lambda>t. length (m_cur t))"
    by (simp add: discardUntil_def)
next
  fix t assume "\<not> eof t" "curChar t = CHR '' '' \<or> curChar t = CHR 0x09"
  then have "length (m_cur (advanceWhile (\<lambda>c. isAnyOf c [CHR '' '', CHR 0x09]) t)) < length (m_cur t)"
    by (intro length_advanceWhile_less) (auto simp: isAnyOf_def)
  then show "(discardWhile [CHR '' '', CHR 0x09] t, t) \<in> measure (\<lambda>t. length (m_cur t))"
    by (simp add: discardWhile_def)
qed

declare emitToken.simps [simp del]

lemma readInteger_less: "readInteger delims t = Some e \<Longrightarrow> length (m_cur e) < length (m_cur t)"
proof -
  assume a: "readInteger delims t = Some e"
  define t1 where "t1 = (if curChar t = CHR ''+'' \<or> curChar t = CHR ''-'' then advance t else t)"
  have "length (m_cur t1) \<le> length (m_cur t)"
    by (simp add: t1_def length_advance_le)
  moreover from a have "e = advanceWhile isDigit t1 \<and> length (m_cur e) < length (m_cur t1)"
    by (auto simp: readInteger_def Let_def t1_def split: if_splits)
  ultimately show ?thesis by auto
qed

lemma readDecimal_less: "readDecimal delims t = Some e \<Longrightarrow> length (m_cur e) < length (m_cur t)"
proof -
  assume a: "readDecimal delims t = Some e"
  define t1 where "t1 = (if curChar t = CHR ''+'' \<or> curChar t = CHR ''-'' then advance t else t)"
  define t2 where "t2 = advanceWhile isDigit t1"
  define t3 where "t3 = (if curChar t2 = CHR ''.'' then advance t2 else t2)"
  define t4 where "t4 = advanceWhile isDigit t3"
  have "length (m_cur t1) \<le> length (m_cur t)"
    by (simp add: t1_def length_advance_le)
  moreover have "length (m_cur t2) \<le> length (m_cur t1)"
    by (simp add: t2_def length_advanceWhile_le)
  moreover have "length (m_cur t3) \<le> length (m_cur t2)"
    by (simp add: t3_def length_advance_le)
  moreover have "length (m_cur t4) \<le> length (m_cur t3)"
    by (simp add: t4_def length_advanceWhile_le)
  moreover from a have "e = t4 \<and> (length (m_cur t2) < length (m_cur t1) \<or> length (m_cur t4) < length (m_cur t3))"
    unfolding readDecimal_def Let_def t1_def [symmetric] t2_def [symmetric] t3_def [symmetric] t4_def [symmetric]
    by (auto split: if_splits)
  ultimately show ?thesis by auto
qed

lemma readUntil_less: "readUntil delims t = Some e \<Longrightarrow> length (m_cur e) < length (m_cur t)"
proof -
  assume a: "readUntil delims t = Some e"
  then have ne: "m_cur t \<noteq> []" and e: "e = advanceWhile (\<lambda>c. \<not> isAnyOf c delims) (advance t)"
    by (auto simp: readUntil_def eof_def split: if_splits)
  have "length (m_cur e) \<le> length (m_cur (advance t))"
    unfolding e by (rule length_advanceWhile_le)
  with length_advance [OF ne] show ?thesis by simp
qed

lemma readQuotedString_le:
  "readQuotedString t = Inr (e, t') \<Longrightarrow> length (m_cur t') \<le> length (m_cur t)"
proof -
  assume "readQuotedString t = Inr (e, t')"
  then have "t' = advance (advanceWhile (\<lambda>c. c \<noteq> CHR 0x22) t)"
    by (auto simp: readQuotedString_def Let_def split: if_splits)
  then show ?thesis
    using length_advance_le [of "advanceWhile (\<lambda>c. c \<noteq> CHR 0x22) t"]
      length_advanceWhile_le [of "\<lambda>c. c \<noteq> CHR 0x22" t] by simp
qed

lemma singleCharToken_less:
  "\<not> eof t \<Longrightarrow> singleCharToken ty t = Inr (tok, t') \<Longrightarrow> length (m_cur t') < length (m_cur t)"
  by (auto simp: singleCharToken_def eof_def length_advance)

lemma caseStar_less:
  "\<not> eof t \<Longrightarrow> caseStar t = Inr (tok, t') \<Longrightarrow> length (m_cur t') < length (m_cur t)"
  using singleCharToken_less [of t OParenthesis tok t'] length_advance [of t]
  by (auto simp: caseStar_def caseOParenthesis_def Let_def eof_def split: if_splits)

lemma caseNewline_less:
  "\<not> eof t \<Longrightarrow> caseNewline t (if b then advance t else t) = Inr (tok, t') \<Longrightarrow>
   length (m_cur t') < length (m_cur t)"
  using length_advance [of t] length_advance_le [of "advance t"]
  by (auto simp: caseNewline_def eof_def split: if_splits)

lemma caseDefault_less:
  "caseDefault t = Inr (tok, t') \<Longrightarrow> length (m_cur t') < length (m_cur t)"
  by (auto simp: caseDefault_def split: option.splits
      dest: readInteger_less readDecimal_less readUntil_less)

lemma singleCharToken_type: "singleCharToken ty t = Inr (tok, t') \<Longrightarrow> ttype tok = ty"
  by (auto simp: singleCharToken_def)

lemma caseStar_type: "caseStar t = Inr (tok, t') \<Longrightarrow> ttype tok \<noteq> Eof"
  by (auto simp: caseStar_def caseOParenthesis_def Let_def split: if_splits
      dest: singleCharToken_type)

lemma caseNewline_type: "caseNewline t t1 = Inr (tok, t') \<Longrightarrow> ttype tok \<noteq> Eof"
  by (auto simp: caseNewline_def)

lemma caseDefault_type: "caseDefault t = Inr (tok, t') \<Longrightarrow> ttype tok \<noteq> Eof"
  by (auto simp: caseDefault_def split: option.splits)

lemma emitToken_progress:
  "emitToken t = Inr (tok, t') \<Longrightarrow>
     length (m_cur t') \<le> length (m_cur t) \<and>
     (ttype tok \<noteq> Eof \<longrightarrow> length (m_cur t') < length (m_cur t)) \<and>
     (ttype tok = Eof \<longrightarrow> eof t')"
proof (induction t rule: emitToken.induct)
  case (1 t)
  note unfolded = "1.prems" [unfolded emitToken.simps [of t]]
  show ?case
  proof (cases "eof t")
    case True
    with unfolded show ?thesis by auto
  next
    case ne: False
    consider (odef) "curChar t = CHR ''/''" "lookAhead t = CHR ''*''"
      | (lcomment) "curChar t = CHR ''/''" "lookAhead t \<noteq> CHR ''*''" "lookAhead t = CHR ''/''"
      | (blank) "curChar t = CHR '' '' \<or> curChar t = CHR 0x09"
      | (quoted) "curChar t = CHR 0x22"
      | (other) "\<not> (curChar t = CHR ''/'' \<and> (lookAhead t = CHR ''*'' \<or> lookAhead t = CHR ''/''))"
          "\<not> (curChar t = CHR '' '' \<or> curChar t = CHR 0x09)" "curChar t \<noteq> CHR 0x22"
      by blast
    then show ?thesis
    proof cases
      case odef
      with ne unfolded
      have "t' = advanceWhile (\<lambda>c. \<not> isWhitespace c) (advance t)" and "ttype tok = ODefinition"
        by (auto simp add: Let_def)
      moreover have "length (m_cur (advance t)) < length (m_cur t)"
        using ne by (simp add: eof_def length_advance)
      ultimately show ?thesis
        using length_advanceWhile_le [of "\<lambda>c. \<not> isWhitespace c" "advance t"] by simp
    next
      case lcomment
      with ne unfolded
      have e: "emitToken (discardUntil [CHR 0x0A, CHR 0x0D] t) = Inr (tok, t')"
        by simp
      have "length (m_cur (discardUntil [CHR 0x0A, CHR 0x0D] t)) < length (m_cur t)"
        unfolding discardUntil_def using ne lcomment
        by (intro length_advanceWhile_less) (simp_all add: isAnyOf_def)
      with "1.IH"(1) [OF ne lcomment e] show ?thesis by simp
    next
      case blank
      with ne unfolded
      have e: "emitToken (discardWhile [CHR '' '', CHR 0x09] t) = Inr (tok, t')"
        by auto
      have "length (m_cur (discardWhile [CHR '' '', CHR 0x09] t)) < length (m_cur t)"
        unfolding discardWhile_def using ne blank
        by (intro length_advanceWhile_less) (auto simp add: isAnyOf_def)
      moreover have "length (m_cur t') \<le> length (m_cur (discardWhile [CHR '' '', CHR 0x09] t)) \<and>
         (ttype tok \<noteq> Eof \<longrightarrow> length (m_cur t') < length (m_cur (discardWhile [CHR '' '', CHR 0x09] t))) \<and>
         (ttype tok = Eof \<longrightarrow> eof t')"
        using "1.IH"(2) [OF ne _ _ _ _ _ _ _ _ _ _ _ _ e] blank by auto
      ultimately show ?thesis by simp
    next
      case quoted
      with ne unfolded obtain e where "readQuotedString (advance t) = Inr (e, t')"
        and "ttype tok = QuotedString"
        by (auto simp: Let_def split: sum.splits)
      from readQuotedString_le [OF this(1)] length_advance [of t] ne this(2)
      show ?thesis by (simp add: eof_def)
    next
      case other
      with ne unfolded have "length (m_cur t') < length (m_cur t)"
        by (auto simp: caseOParenthesis_def split: if_splits
            dest: singleCharToken_less caseStar_less caseNewline_less caseDefault_less)
      moreover from other ne unfolded have "ttype tok \<noteq> Eof"
        by (auto simp: caseOParenthesis_def split: if_splits
            dest: singleCharToken_type caseStar_type caseNewline_type caseDefault_type)
      ultimately show ?thesis by simp
    qed
  qed
qed

subsection \<open>The interface of the scanner\<close>

text \<open>
  Modelled from the spec: \<^verbatim>\<open>nextToken\<close>, \<^verbatim>\<open>peekToken\<close>, \<^verbatim>\<open>snapshot\<close> and \<^verbatim>\<open>restore\<close> belong to the
  base class \<^verbatim>\<open>Tokenizer\<close>, which is not among the sources. \<^verbatim>\<open>nextToken\<close> returns the next
  token and advances the state; \<^verbatim>\<open>peekToken\<close> returns it without advancing (spec, section
  4.1). A snapshot is the captured state, and restoring it puts that state back.
\<close>

definition nextToken :: "TokenizerState \<Rightarrow> (Token, TokenizerState) result" where
  "nextToken t = emitToken t"

definition peekToken :: "TokenizerState \<Rightarrow> (Token, TokenizerState) result" where
  "peekToken t = (case nextToken t of Inl x \<Rightarrow> Inl x | Inr (token, _) \<Rightarrow> Inr (token, t))"

text \<open>
  Sequencing: a statement that throws ends the function with that exception; otherwise the
  next statement runs on the value returned and the state reached.
\<close>

definition andThen :: "('a, 's) result \<Rightarrow> ('a \<Rightarrow> 's \<Rightarrow> ('b, 's) result) \<Rightarrow> ('b, 's) result" where
  "andThen r f = (case r of Inl x \<Rightarrow> Inl x | Inr (a, s) \<Rightarrow> f a s)"

lemma andThen_cong [fundef_cong]:
  "r = r' \<Longrightarrow> (\<And>a s. r' = Inr (a, s) \<Longrightarrow> f a s = f' a s) \<Longrightarrow> andThen r f = andThen r' f'"
  by (auto simp: andThen_def split: sum.splits)

lemma andThen_Inr: "andThen r f = Inr y \<longleftrightarrow> (\<exists>a s. r = Inr (a, s) \<and> f a s = Inr y)"
  by (auto simp: andThen_def split: sum.splits)

lemma andThen_simps [simp]:
  "andThen (Inl x) f = Inl x"
  "andThen (Inr (a, s)) f = f a s"
  by (simp_all add: andThen_def)

text \<open>
  Modelled from the spec: \<^verbatim>\<open>expect\<close> belongs to the base class \<^verbatim>\<open>Parser\<close>, which is not among
  the sources. A syntax error is raised when the expected kinds do not include the kind of
  the actual token; it carries the line and column of the token, the names of the expected
  kinds and the text of the token (spec, section 7). The token to check is the result of
  the scanner call written as the argument.
\<close>

fun tokenName :: "DefToken list \<Rightarrow> string" where
  "tokenName [] = []"
| "tokenName [ty] = tokenNames ty"
| "tokenName (ty # tys) = tokenNames ty @ '', or '' @ tokenName tys"

definition expectString :: "string \<Rightarrow> Token \<Rightarrow> string" where
  "expectString expected token = ''Expected '' @ expected @ '', but got '' @ tdata token"

definition expect :: "DefToken list \<Rightarrow> (Token, 's) result \<Rightarrow> (Token, 's) result" where
  "expect typeMask r =
     andThen r (\<lambda>token s.
       if hasType token typeMask then Inr (token, s)
       else Inl (ParserException (tline token) (tcolumn token)
                   (expectString (tokenName typeMask) token), s))"

lemma expect_Inr: "expect typeMask r = Inr (token, s) \<longleftrightarrow> r = Inr (token, s) \<and> hasType token typeMask"
  by (auto simp: expect_def andThen_Inr)

lemma nextToken_le: "nextToken t = Inr (tok, t') \<Longrightarrow> length (m_cur t') \<le> length (m_cur t)"
  by (simp add: nextToken_def emitToken_progress)

lemma nextToken_less:
  "nextToken t = Inr (tok, t') \<Longrightarrow> ttype tok \<noteq> Eof \<Longrightarrow> length (m_cur t') < length (m_cur t)"
  by (simp add: nextToken_def emitToken_progress)

lemma nextToken_Eof: "nextToken t = Inr (tok, t') \<Longrightarrow> ttype tok = Eof \<Longrightarrow> eof t'"
  by (simp add: nextToken_def emitToken_progress)

lemma expect_nextToken_progress:
  "expect typeMask (nextToken t) = Inr (tok, t') \<Longrightarrow>
     length (m_cur t') \<le> length (m_cur t) \<and>
     (Eof \<notin> set typeMask \<longrightarrow> length (m_cur t') < length (m_cur t))"
  by (auto simp: expect_Inr hasType_def dest: nextToken_le nextToken_less)

lemma peekToken_Inr:
  "peekToken t = Inr (tok, t') \<longleftrightarrow> t' = t \<and> (\<exists>t''. nextToken t = Inr (tok, t''))"
  by (auto simp: peekToken_def split: sum.splits)

function nextTokenIgnoringNewlines :: "TokenizerState \<Rightarrow> (Token, TokenizerState) result" where
  "nextTokenIgnoringNewlines t =
     andThen (nextToken t) (\<lambda>token t'.
       if ttype token = Newline then nextTokenIgnoringNewlines t' else Inr (token, t'))"
  by pat_completeness auto
termination
  by (relation "measure (\<lambda>t. length (m_cur t))") (auto dest: nextToken_less)

declare nextTokenIgnoringNewlines.simps [simp del]

lemma nextTokenIgnoringNewlines_progress:
  "nextTokenIgnoringNewlines t = Inr (tok, t') \<Longrightarrow>
     length (m_cur t') \<le> length (m_cur t) \<and>
     (ttype tok \<noteq> Eof \<longrightarrow> length (m_cur t') < length (m_cur t))"
proof (induction t rule: nextTokenIgnoringNewlines.induct)
  case (1 t)
  from "1.prems" obtain token t1 where
    n: "nextToken t = Inr (token, t1)" and
    r: "(if ttype token = Newline then nextTokenIgnoringNewlines t1 else Inr (token, t1)) = Inr (tok, t')"
    by (subst (asm) nextTokenIgnoringNewlines.simps) (auto simp: andThen_Inr)
  show ?case
  proof (cases "ttype token = Newline")
    case True
    with r have "nextTokenIgnoringNewlines t1 = Inr (tok, t')" by simp
    from "1.IH" [OF n True this] nextToken_le [OF n] show ?thesis by auto
  next
    case False
    with r have "tok = token" "t' = t1" by simp_all
    with nextToken_le [OF n] nextToken_less [OF n] show ?thesis by auto
  qed
qed

lemma nextTokenIgnoringNewlines_le:
  "nextTokenIgnoringNewlines t = Inr (tok, t') \<Longrightarrow> length (m_cur t') \<le> length (m_cur t)"
  by (simp add: nextTokenIgnoringNewlines_progress)

lemma nextTokenIgnoringNewlines_less:
  "nextTokenIgnoringNewlines t = Inr (tok, t') \<Longrightarrow> ttype tok \<noteq> Eof \<Longrightarrow>
   length (m_cur t') < length (m_cur t)"
  by (simp add: nextTokenIgnoringNewlines_progress)

lemma expect_nextTokenIgnoringNewlines_progress:
  "expect typeMask (nextTokenIgnoringNewlines t) = Inr (tok, t') \<Longrightarrow>
     length (m_cur t') \<le> length (m_cur t) \<and>
     (Eof \<notin> set typeMask \<longrightarrow> length (m_cur t') < length (m_cur t))"
  by (auto simp: expect_Inr hasType_def
      dest: nextTokenIgnoringNewlines_le nextTokenIgnoringNewlines_less)

section \<open>Values read from tokens\<close>

text \<open>
  Modelled from the spec: \<^verbatim>\<open>Token::toFloat\<close> is not among the sources. It reads the text of
  an integer or decimal token: an optional sign, digits, and optionally a point and more
  digits. \<open>toFloat\<close> is \<^verbatim>\<open>toFloat<double>\<close>, used for the corners of a box: the
  double-precision value is modelled as a real number. \<^verbatim>\<open>toFloat<float>\<close>, used for the
  components of a colour, is \<open>toFloat32\<close> below.
\<close>

definition digitValue :: "char \<Rightarrow> nat" where
  "digitValue c = length (takeWhile (\<lambda>d. d \<noteq> c) ''0123456789'')"

definition digitsValue :: "string \<Rightarrow> nat" where
  "digitsValue ds = foldl (\<lambda>n c. 10 * n + digitValue c) 0 ds"

definition toFloat :: "string \<Rightarrow> real" where
  "toFloat str =
     (let body = (if take 1 str = ''-'' \<or> take 1 str = ''+'' then drop 1 str else str);
          ip = takeWhile isDigit body;
          fp = takeWhile isDigit (drop 1 (dropWhile isDigit body));
          v = real (digitsValue ip) + real (digitsValue fp) / 10 ^ length fp
      in if take 1 str = ''-'' then - v else v)"

subsection \<open>Single precision\<close>

text \<open>
  The components of a colour are of the type \<^verbatim>\<open>float\<close>: the binary32 format of IEEE 754, with
  a significand of 24 bits, exponents from \<open>-126\<close> to \<open>127\<close>, subnormal numbers and two
  infinities. A value is a rational number of that format or an infinity. The two zeros
  are one value (they compare equal); no operation used here yields a NaN.
\<close>

datatype float32 = Finite32 rat | PlusInfinity | MinusInfinity

text \<open>The number of binary digits of a positive integer.\<close>

function bitLength :: "int \<Rightarrow> nat" where
  "bitLength k = (if k \<le> 0 then 0 else Suc (bitLength (k div 2)))"
  by pat_completeness auto
termination
  by (relation "measure nat") auto

declare bitLength.simps [simp del]

definition pow2 :: "int \<Rightarrow> rat" where
  "pow2 k = (if 0 \<le> k then 2 ^ nat k else 1 / 2 ^ nat (- k))"

text \<open>The exponent \<open>e\<close> with \<open>2 ^ e \<le> x < 2 ^ (e + 1)\<close>, for a positive \<open>x\<close>.\<close>

definition floorLog2 :: "rat \<Rightarrow> int" where
  "floorLog2 x =
     (case quotient_of x of (n, d) \<Rightarrow>
        let k = int (bitLength n) - int (bitLength d)
        in if pow2 k \<le> x then k else k - 1)"

text \<open>The nearest integer, the even one of two that are equally near.\<close>

definition roundHalfEven :: "rat \<Rightarrow> int" where
  "roundHalfEven x =
     (let f = \<lfloor>x\<rfloor>; d = x - of_int f
      in if d < 1 / 2 then f else if 1 / 2 < d then f + 1 else if even f then f else f + 1)"

text \<open>
  Rounding to the nearest value of the format, ties to even: the spacing of the format at
  \<open>x\<close> is \<open>2 ^ (e - 23)\<close>, where \<open>e\<close> is the exponent of \<open>x\<close> and at least \<open>-126\<close>; a result of
  \<open>2 ^ 128\<close> or more is an infinity.
\<close>

definition roundToFloat32 :: "rat \<Rightarrow> float32" where
  "roundToFloat32 x =
     (if x = 0 then Finite32 0
      else
        let e = max (floorLog2 \<bar>x\<bar>) (- 126);
            quantum = pow2 (e - 23);
            r = of_int (roundHalfEven (\<bar>x\<bar> / quantum)) * quantum
        in if pow2 128 \<le> r then (if 0 < x then PlusInfinity else MinusInfinity)
           else Finite32 (if 0 < x then r else - r))"

text \<open>The comparison \<^verbatim>\<open>x > y\<close> of two values.\<close>

fun float32_greater :: "float32 \<Rightarrow> float32 \<Rightarrow> bool" where
  "float32_greater (Finite32 x) (Finite32 y) = (y < x)"
| "float32_greater (Finite32 x) PlusInfinity = False"
| "float32_greater (Finite32 x) MinusInfinity = True"
| "float32_greater PlusInfinity (Finite32 y) = True"
| "float32_greater PlusInfinity PlusInfinity = False"
| "float32_greater PlusInfinity MinusInfinity = True"
| "float32_greater MinusInfinity y = False"

text \<open>
  The division \<^verbatim>\<open>x / y\<close> by a finite positive value \<open>y\<close> of the format, as in
  \<^verbatim>\<open>color[i] /= 255.0f\<close>: the exact quotient, rounded.
\<close>

fun float32_divide :: "float32 \<Rightarrow> rat \<Rightarrow> float32" where
  "float32_divide (Finite32 x) y = roundToFloat32 (x / y)"
| "float32_divide PlusInfinity y = PlusInfinity"
| "float32_divide MinusInfinity y = MinusInfinity"

text \<open>
  Modelled from the spec: \<^verbatim>\<open>Token::toFloat<float>\<close> is not among the sources. It is the
  decimal number the text of the token denotes, rounded to single precision.
\<close>

definition decimalValue :: "string \<Rightarrow> rat" where
  "decimalValue str =
     (let body = (if take 1 str = ''-'' \<or> take 1 str = ''+'' then drop 1 str else str);
          ip = takeWhile isDigit body;
          fp = takeWhile isDigit (drop 1 (dropWhile isDigit body));
          v = of_nat (digitsValue ip) + of_nat (digitsValue fp) / 10 ^ length fp
      in if take 1 str = ''-'' then - v else v)"

definition toFloat32 :: "string \<Rightarrow> float32" where
  "toFloat32 str = roundToFloat32 (decimalValue str)"

subsection \<open>Colours, vectors and boxes\<close>

text \<open>
  Modelled from the spec: the colour and vector types are not among the sources. A colour
  has four components of single precision, a vector three of double precision, a box a
  minimum and a maximum corner (spec, sections 3 and 4.2).
\<close>

type_synonym Color = "float32 list"
type_synonym vec3 = "real list"

record bbox3 =
  bbox_min :: vec3
  bbox_max :: vec3

text \<open>
  Modelled from the spec: \<^verbatim>\<open>repair\<close> belongs to the vector library, which is not among the
  sources. After it, component-wise, the stored minimum is the element-wise minimum and
  the stored maximum the element-wise maximum of the two corners (spec, section 4.2).
\<close>

definition repair :: "bbox3 \<Rightarrow> bbox3" where
  "repair bounds =
     \<lparr>bbox_min = map2 min (bbox_min bounds) (bbox_max bounds),
      bbox_max = map2 max (bbox_min bounds) (bbox_max bounds)\<rparr>"

section \<open>Attribute definitions\<close>

text \<open>
  Modelled from the spec: the attribute definitions are not among the sources. A flags
  definition is an ordered collection of options, a choice definition a name and an
  ordered list of options (spec, section 3); the fields are the arguments the parser
  passes. These are the arguments of \<^verbatim>\<open>FlagsAttributeDefinition::addOption(value,
  shortDescription, longDescription, isDefault)\<close>; the value is a 32-bit \<^verbatim>\<open>int\<close>.
\<close>

record FlagsAttributeOption =
  flagValue :: int
  shortDescription :: string
  longDescription :: string
  isDefault :: bool

text \<open>Modelled from the spec: the arguments of \<^verbatim>\<open>ChoiceAttributeOption(value, description)\<close>.\<close>

record ChoiceAttributeOption =
  choiceValue :: string
  choiceDescription :: string

text \<open>
  Modelled from the spec: \<^verbatim>\<open>FlagsAttributeDefinition(name)\<close> with the options added to it, and
  \<^verbatim>\<open>ChoiceAttributeDefinition(name, shortDescription, longDescription, options, readOnly)\<close>.
\<close>

datatype AttributeDefinition =
    FlagsAttributeDefinition string "FlagsAttributeOption list"
  | ChoiceAttributeDefinition string string string "ChoiceAttributeOption list" bool

fun attributeName :: "AttributeDefinition \<Rightarrow> string" where
  "attributeName (FlagsAttributeDefinition n _) = n"
| "attributeName (ChoiceAttributeDefinition n _ _ _ _) = n"

text \<open>Modelled from the spec: the constant \<^verbatim>\<open>Model::AttributeNames::Spawnflags\<close>.\<close>

definition Spawnflags :: string where
  "Spawnflags = ''spawnflags''"

section \<open>The clauses of a declaration\<close>

subsection \<open>\<^verbatim>\<open>DefParser::parseVector\<close>, \<^verbatim>\<open>parseBounds\<close>, \<^verbatim>\<open>parseColor\<close>\<close>

function parseVectorLoop :: "nat \<Rightarrow> vec3 \<Rightarrow> TokenizerState \<Rightarrow> (vec3, TokenizerState) result" where
  "parseVectorLoop i vec t =
     (if i < 3
      then andThen (expect [Integer, Decimal] (nextToken t))
             (\<lambda>token t'. parseVectorLoop (i + 1) (vec[i := toFloat (tdata token)]) t')
      else Inr (vec, t))"
  by pat_completeness auto
termination
  by (relation "measure (\<lambda>(i, vec, t). 3 - i)") auto

declare parseVectorLoop.simps [simp del]

definition parseVector :: "TokenizerState \<Rightarrow> (vec3, TokenizerState) result" where
  "parseVector t = parseVectorLoop 0 [0, 0, 0] t"

definition parseBounds :: "TokenizerState \<Rightarrow> (bbox3, TokenizerState) result" where
  "parseBounds t =
     andThen (expect [OParenthesis] (nextToken t)) (\<lambda>_ t.
     andThen (parseVector t) (\<lambda>bounds_min t.
     andThen (expect [CParenthesis] (nextToken t)) (\<lambda>_ t.
     andThen (expect [OParenthesis] (nextToken t)) (\<lambda>_ t.
     andThen (parseVector t) (\<lambda>bounds_max t.
     andThen (expect [CParenthesis] (nextToken t)) (\<lambda>_ t.
     Inr (repair \<lparr>bbox_min = bounds_min, bbox_max = bounds_max\<rparr>, t)))))))"

function parseColorLoop :: "nat \<Rightarrow> Color \<Rightarrow> TokenizerState \<Rightarrow> (Color, TokenizerState) result" where
  "parseColorLoop i color t =
     (if i < 3
      then andThen (expect [Decimal, Integer] (nextToken t))
             (\<lambda>token t'.
                let color1 = color[i := toFloat32 (tdata token)];
                    color2 = (if float32_greater (color1 ! i) (Finite32 1)
                              then color1[i := float32_divide (color1 ! i) 255]
                              else color1)
                in parseColorLoop (i + 1) color2 t')
      else Inr (color, t))"
  by pat_completeness auto
termination
  by (relation "measure (\<lambda>(i, color, t). 3 - i)") auto

declare parseColorLoop.simps [simp del]

definition parseColor :: "TokenizerState \<Rightarrow> (Color, TokenizerState) result" where
  "parseColor t =
     andThen (expect [OParenthesis] (nextToken t)) (\<lambda>_ t.
     andThen (parseColorLoop 0 [Finite32 0, Finite32 0, Finite32 0, Finite32 0] t) (\<lambda>color t.
     andThen (expect [CParenthesis] (nextToken t)) (\<lambda>_ t.
     Inr (color[3 := Finite32 1], t))))"

subsection \<open>\<^verbatim>\<open>DefParser::parseSpawnflags\<close>\<close>

text \<open>
  The loop of \<^verbatim>\<open>parseSpawnflags\<close>, entered at each \<^verbatim>\<open>peekToken\<close>. The value of an option is
  \<^verbatim>\<open>1 << numOptions\<close>, a shift of the 32-bit signed \<^verbatim>\<open>int\<close> 1; the source leaves a shift by
  32 or more undefined, and the model shifts every bit out there.
\<close>

function parseSpawnflagsLoop ::
  "nat \<Rightarrow> FlagsAttributeOption list \<Rightarrow> TokenizerState \<Rightarrow>
   (FlagsAttributeOption list, TokenizerState) result" where
  "parseSpawnflagsLoop numOptions options t =
     andThen (peekToken t) (\<lambda>token t.
       if hasType token [Word, Minus]
       then andThen (nextToken t) (\<lambda>token t.
              let name = (if hasType token [Word] then tdata token else []);
                  v = sint (push_bit numOptions (1 :: 32 word))
              in parseSpawnflagsLoop (numOptions + 1)
                   (options @ [\<lparr>flagValue = v, shortDescription = name,
                                 longDescription = [], isDefault = False\<rparr>]) t)
       else Inr (options, t))"
  by pat_completeness auto
termination
  by (relation "measure (\<lambda>(numOptions, options, t). length (m_cur t))")
    (auto simp: peekToken_Inr hasType_def dest: nextToken_less)

declare parseSpawnflagsLoop.simps [simp del]

definition parseSpawnflags :: "TokenizerState \<Rightarrow> (AttributeDefinition, TokenizerState) result" where
  "parseSpawnflags t =
     andThen (parseSpawnflagsLoop 0 [] t) (\<lambda>options t.
       Inr (FlagsAttributeDefinition Spawnflags options, t))"

subsection \<open>\<^verbatim>\<open>DefParser::parseDefaultAttribute\<close>, \<^verbatim>\<open>parseBaseAttribute\<close>, \<^verbatim>\<open>parseChoiceAttribute\<close>\<close>

definition parseDefaultAttribute :: "TokenizerState \<Rightarrow> (unit, TokenizerState) result" where
  "parseDefaultAttribute t =
     andThen (expect [OParenthesis] (nextTokenIgnoringNewlines t)) (\<lambda>_ t.
     andThen (expect [QuotedString] (nextTokenIgnoringNewlines t)) (\<lambda>_ t.
     andThen (expect [Comma] (nextTokenIgnoringNewlines t)) (\<lambda>_ t.
     andThen (expect [QuotedString] (nextTokenIgnoringNewlines t)) (\<lambda>_ t.
     andThen (expect [CParenthesis] (nextTokenIgnoringNewlines t)) (\<lambda>_ t.
     Inr ((), t))))))"

definition parseBaseAttribute :: "TokenizerState \<Rightarrow> (string, TokenizerState) result" where
  "parseBaseAttribute t =
     andThen (expect [OParenthesis] (nextTokenIgnoringNewlines t)) (\<lambda>_ t.
     andThen (expect [QuotedString] (nextTokenIgnoringNewlines t)) (\<lambda>token t.
     let basename = tdata token in
     andThen (expect [CParenthesis] (nextTokenIgnoringNewlines t)) (\<lambda>_ t.
     Inr (basename, t))))"

text \<open>
  The loop of \<^verbatim>\<open>parseChoiceAttribute\<close>, entered at its test with the token read last; it
  returns the token that ended it together with the options.
\<close>

function parseChoiceOptions ::
  "Token \<Rightarrow> ChoiceAttributeOption list \<Rightarrow> TokenizerState \<Rightarrow>
   (Token \<times> ChoiceAttributeOption list, TokenizerState) result" where
  "parseChoiceOptions token options t =
     (if ttype token = OParenthesis
      then andThen (expect [Integer] (nextTokenIgnoringNewlines t)) (\<lambda>token t.
           let name = tdata token in
           andThen (expect [Comma] (nextTokenIgnoringNewlines t)) (\<lambda>_ t.
           andThen (expect [QuotedString] (nextTokenIgnoringNewlines t)) (\<lambda>token t.
           let v = tdata token in
           andThen (expect [CParenthesis] (nextTokenIgnoringNewlines t)) (\<lambda>_ t.
           andThen (nextTokenIgnoringNewlines t) (\<lambda>token t.
           parseChoiceOptions token
             (options @ [\<lparr>choiceValue = name, choiceDescription = v\<rparr>]) t)))))
      else Inr ((token, options), t))"
  by pat_completeness auto
termination
  by (relation "measure (\<lambda>(token, options, t). length (m_cur t))")
    (auto dest!: expect_nextTokenIgnoringNewlines_progress nextTokenIgnoringNewlines_le)

declare parseChoiceOptions.simps [simp del]

definition parseChoiceAttribute :: "TokenizerState \<Rightarrow> (AttributeDefinition, TokenizerState) result" where
  "parseChoiceAttribute t =
     andThen (expect [QuotedString] (nextToken t)) (\<lambda>token t.
     let attributeName = tdata token in
     andThen (expect [OParenthesis] (nextTokenIgnoringNewlines t)) (\<lambda>_ t.
     andThen (nextTokenIgnoringNewlines t) (\<lambda>token t.
     andThen (parseChoiceOptions token [] t) (\<lambda>(token, options) t.
     andThen (expect [CParenthesis] (Inr (token, t))) (\<lambda>_ t.
     Inr (ChoiceAttributeDefinition attributeName [] [] options False, t))))))"

subsection \<open>\<^verbatim>\<open>DefParser::parseDescription\<close>\<close>

text \<open>
  Modelled from the spec: \<^verbatim>\<open>Tokenizer::readRemainder\<close> is not among the sources. It reads
  tokens until the next token has the delimiter kind or the input ends, and returns the
  text from the cursor it started at up to the end of the last token it read: all
  remaining text up to, and not including, the block-close marker (spec, section 4.2).
\<close>

function readRemainderLoop :: "DefToken \<Rightarrow> TokenizerState \<Rightarrow> (unit, TokenizerState) result" where
  "readRemainderLoop delimiterType t =
     andThen (nextToken t) (\<lambda>_ t'.
     andThen (peekToken t') (\<lambda>token _.
       if ttype token \<noteq> delimiterType \<and> \<not> eof t'
       then readRemainderLoop delimiterType t'
       else Inr ((), t')))"
  by pat_completeness auto
termination
  by (relation "measure (\<lambda>(delimiterType, t). length (m_cur t))")
    (auto dest: nextToken_Eof nextToken_less)

declare readRemainderLoop.simps [simp del]

definition readRemainder :: "DefToken \<Rightarrow> TokenizerState \<Rightarrow> (string, TokenizerState) result" where
  "readRemainder delimiterType t =
     (if eof t then Inr ([], t)
      else andThen (readRemainderLoop delimiterType t) (\<lambda>_ t'. Inr (textBetween t t', t')))"

definition parseDescription :: "TokenizerState \<Rightarrow> (string, TokenizerState) result" where
  "parseDescription t =
     andThen (peekToken t) (\<lambda>token t.
       if ttype token = CDefinition then Inr ([], t)
       else readRemainder CDefinition t)"

text \<open>
  Modelled from the spec: \<^verbatim>\<open>kdl::str_trim\<close> is not among the sources. It removes the
  leading and trailing whitespace (spec, section 4.2).
\<close>

definition str_trim :: "string \<Rightarrow> string" where
  "str_trim s = rev (dropWhile isWhitespace (rev (dropWhile isWhitespace s)))"

subsection \<open>The clauses never move the cursor backwards\<close>

lemma parseVectorLoop_le:
  "parseVectorLoop i vec t = Inr (v, t') \<Longrightarrow> length (m_cur t') \<le> length (m_cur t)"
proof (induction i vec t rule: parseVectorLoop.induct)
  case (1 i vec t)
  show ?case
  proof (cases "i < 3")
    case True
    with "1.prems" obtain token t1 where
      e: "expect [Integer, Decimal] (nextToken t) = Inr (token, t1)" and
      r: "parseVectorLoop (i + 1) (vec[i := toFloat (tdata token)]) t1 = Inr (v, t')"
      by (subst (asm) parseVectorLoop.simps) (auto simp: andThen_Inr)
    from "1.IH" [OF True e r] expect_nextToken_progress [OF e] show ?thesis by simp
  next
    case False
    with "1.prems" show ?thesis by (subst (asm) parseVectorLoop.simps) simp
  qed
qed

lemma parseVector_le: "parseVector t = Inr (v, t') \<Longrightarrow> length (m_cur t') \<le> length (m_cur t)"
  by (simp add: parseVector_def parseVectorLoop_le)

lemma parseBounds_le: "parseBounds t = Inr (b, t') \<Longrightarrow> length (m_cur t') \<le> length (m_cur t)"
  by (auto simp: parseBounds_def andThen_Inr
      dest!: expect_nextToken_progress parseVector_le)

lemma parseColorLoop_le:
  "parseColorLoop i color t = Inr (c, t') \<Longrightarrow> length (m_cur t') \<le> length (m_cur t)"
proof (induction i color t rule: parseColorLoop.induct)
  case (1 i color t)
  show ?case
  proof (cases "i < 3")
    case True
    with "1.prems" obtain token t1 color2 where
      e: "expect [Decimal, Integer] (nextToken t) = Inr (token, t1)" and
      c: "color2 = (if float32_greater (color[i := toFloat32 (tdata token)] ! i) (Finite32 1)
                    then (color[i := toFloat32 (tdata token)])
                           [i := float32_divide (color[i := toFloat32 (tdata token)] ! i) 255]
                    else color[i := toFloat32 (tdata token)])" and
      r: "parseColorLoop (i + 1) color2 t1 = Inr (c, t')"
      by (subst (asm) parseColorLoop.simps) (auto simp: andThen_Inr Let_def)
    from "1.IH" [OF True e refl c r] expect_nextToken_progress [OF e] show ?thesis by simp
  next
    case False
    with "1.prems" show ?thesis by (subst (asm) parseColorLoop.simps) simp
  qed
qed

lemma parseColor_less: "parseColor t = Inr (c, t') \<Longrightarrow> length (m_cur t') < length (m_cur t)"
  by (auto simp: parseColor_def andThen_Inr
      dest!: expect_nextToken_progress parseColorLoop_le)

lemma parseSpawnflagsLoop_le:
  "parseSpawnflagsLoop numOptions options t = Inr (r, t') \<Longrightarrow> length (m_cur t') \<le> length (m_cur t)"
proof (induction numOptions options t rule: parseSpawnflagsLoop.induct)
  case (1 numOptions options t)
  from "1.prems" obtain token where p: "peekToken t = Inr (token, t)" and
    b: "(if hasType token [Word, Minus]
         then andThen (nextToken t) (\<lambda>token t.
              let name = (if hasType token [Word] then tdata token else []);
                  v = sint (push_bit numOptions (1 :: 32 word))
              in parseSpawnflagsLoop (numOptions + 1)
                   (options @ [\<lparr>flagValue = v, shortDescription = name,
                                 longDescription = [], isDefault = False\<rparr>]) t)
         else Inr (options, t)) = Inr (r, t')"
    by (subst (asm) parseSpawnflagsLoop.simps) (auto simp: andThen_Inr peekToken_Inr)
  show ?case
  proof (cases "hasType token [Word, Minus]")
    case True
    with b obtain token' t2 where n: "nextToken t = Inr (token', t2)" and
      r: "parseSpawnflagsLoop (numOptions + 1)
            (options @ [\<lparr>flagValue = sint (push_bit numOptions (1 :: 32 word)),
               shortDescription = (if hasType token' [Word] then tdata token' else []),
               longDescription = [], isDefault = False\<rparr>]) t2 = Inr (r, t')"
      by (auto simp: andThen_Inr Let_def)
    from "1.IH" [OF p True n refl refl r] nextToken_le [OF n] show ?thesis by simp
  next
    case False
    with b show ?thesis by simp
  qed
qed

lemma parseSpawnflags_le:
  "parseSpawnflags t = Inr (a, t') \<Longrightarrow> length (m_cur t') \<le> length (m_cur t)"
  by (auto simp: parseSpawnflags_def andThen_Inr dest: parseSpawnflagsLoop_le)

lemma parseDefaultAttribute_le:
  "parseDefaultAttribute t = Inr (u, t') \<Longrightarrow> length (m_cur t') \<le> length (m_cur t)"
  by (auto simp: parseDefaultAttribute_def andThen_Inr
      dest!: expect_nextTokenIgnoringNewlines_progress)

lemma parseBaseAttribute_le:
  "parseBaseAttribute t = Inr (b, t') \<Longrightarrow> length (m_cur t') \<le> length (m_cur t)"
  by (auto simp: parseBaseAttribute_def andThen_Inr Let_def
      dest!: expect_nextTokenIgnoringNewlines_progress)

lemma parseChoiceOptions_le:
  "parseChoiceOptions token options t = Inr (r, t') \<Longrightarrow> length (m_cur t') \<le> length (m_cur t)"
proof (induction token options t rule: parseChoiceOptions.induct)
  case (1 token options t)
  show ?case
  proof (cases "ttype token = OParenthesis")
    case True
    with "1.prems" obtain tk1 t1 u2 t2 tk3 t3 u4 t4 tk5 t5 where
      e1: "expect [Integer] (nextTokenIgnoringNewlines t) = Inr (tk1, t1)" and
      e2: "expect [Comma] (nextTokenIgnoringNewlines t1) = Inr (u2, t2)" and
      e3: "expect [QuotedString] (nextTokenIgnoringNewlines t2) = Inr (tk3, t3)" and
      e4: "expect [CParenthesis] (nextTokenIgnoringNewlines t3) = Inr (u4, t4)" and
      e5: "nextTokenIgnoringNewlines t4 = Inr (tk5, t5)" and
      r: "parseChoiceOptions tk5
            (options @ [\<lparr>choiceValue = tdata tk1, choiceDescription = tdata tk3\<rparr>]) t5 = Inr (r, t')"
      by (subst (asm) parseChoiceOptions.simps) (auto simp: andThen_Inr Let_def)
    from "1.IH" [OF True e1 refl e2 e3 refl e4 e5 r]
      expect_nextTokenIgnoringNewlines_progress [OF e1]
      expect_nextTokenIgnoringNewlines_progress [OF e2]
      expect_nextTokenIgnoringNewlines_progress [OF e3]
      expect_nextTokenIgnoringNewlines_progress [OF e4]
      nextTokenIgnoringNewlines_le [OF e5]
    show ?thesis by simp
  next
    case False
    with "1.prems" show ?thesis by (subst (asm) parseChoiceOptions.simps) simp
  qed
qed

lemma parseChoiceAttribute_le:
  "parseChoiceAttribute t = Inr (a, t') \<Longrightarrow> length (m_cur t') \<le> length (m_cur t)"
  by (auto simp: parseChoiceAttribute_def andThen_Inr Let_def expect_Inr
      dest!: expect_nextTokenIgnoringNewlines_progress nextTokenIgnoringNewlines_le
        parseChoiceOptions_le nextToken_le)

lemma readRemainderLoop_le:
  "readRemainderLoop d t = Inr (u, t') \<Longrightarrow> length (m_cur t') \<le> length (m_cur t)"
proof (induction d t rule: readRemainderLoop.induct)
  case (1 d t)
  from "1.prems" obtain a t1 token where n: "nextToken t = Inr (a, t1)" and
    p: "peekToken t1 = Inr (token, t1)" and
    r: "(if ttype token \<noteq> d \<and> \<not> eof t1 then readRemainderLoop d t1 else Inr ((), t1)) = Inr (u, t')"
    by (subst (asm) readRemainderLoop.simps) (auto simp: andThen_Inr peekToken_Inr)
  show ?case
  proof (cases "ttype token \<noteq> d \<and> \<not> eof t1")
    case True
    with r have "readRemainderLoop d t1 = Inr (u, t')" by simp
    from "1.IH" [OF n p True this] nextToken_le [OF n] show ?thesis by simp
  next
    case False
    with r nextToken_le [OF n] show ?thesis by auto
  qed
qed

lemma parseDescription_le:
  "parseDescription t = Inr (d, t') \<Longrightarrow> length (m_cur t') \<le> length (m_cur t)"
  by (auto simp: parseDescription_def readRemainder_def andThen_Inr peekToken_Inr
      split: if_splits dest: readRemainderLoop_le)

section \<open>Class information and descriptors\<close>

text \<open>
  Modelled from the spec: \<^verbatim>\<open>EntityDefinitionClassInfo\<close> is not among the sources. It holds a
  name, an optional colour, an optional size, the ordered list of attribute definitions, a
  description and an optional model definition (spec, section 3); the names of the base
  classes are kept by the parser in a list of their own. The model definition is the
  expression it was built from, of a type \<open>'e\<close> left open.
\<close>

record 'e EntityDefinitionClassInfo =
  m_name :: string
  m_color :: "Color option"
  m_size :: "bbox3 option"
  m_attributes :: "AttributeDefinition list"
  m_description :: string
  m_modelDefinition :: "'e option"

definition EntityDefinitionClassInfo :: "'e EntityDefinitionClassInfo" where
  "EntityDefinitionClassInfo =
     \<lparr>m_name = [], m_color = None, m_size = None, m_attributes = [], m_description = [],
      m_modelDefinition = None\<rparr>"

definition setName :: "string \<Rightarrow> 'e EntityDefinitionClassInfo \<Rightarrow> 'e EntityDefinitionClassInfo" where
  "setName n classInfo = classInfo\<lparr>m_name := n\<rparr>"

definition setColor :: "Color \<Rightarrow> 'e EntityDefinitionClassInfo \<Rightarrow> 'e EntityDefinitionClassInfo" where
  "setColor c classInfo = classInfo\<lparr>m_color := Some c\<rparr>"

definition setSize :: "bbox3 \<Rightarrow> 'e EntityDefinitionClassInfo \<Rightarrow> 'e EntityDefinitionClassInfo" where
  "setSize b classInfo = classInfo\<lparr>m_size := Some b\<rparr>"

definition setDescription :: "string \<Rightarrow> 'e EntityDefinitionClassInfo \<Rightarrow> 'e EntityDefinitionClassInfo" where
  "setDescription d classInfo = classInfo\<lparr>m_description := d\<rparr>"

definition setModelDefinition :: "'e \<Rightarrow> 'e EntityDefinitionClassInfo \<Rightarrow> 'e EntityDefinitionClassInfo" where
  "setModelDefinition m classInfo = classInfo\<lparr>m_modelDefinition := Some m\<rparr>"

definition addAttributeDefinition ::
  "AttributeDefinition \<Rightarrow> 'e EntityDefinitionClassInfo \<Rightarrow> 'e EntityDefinitionClassInfo" where
  "addAttributeDefinition a classInfo = classInfo\<lparr>m_attributes := m_attributes classInfo @ [a]\<rparr>"

definition hasColor :: "'e EntityDefinitionClassInfo \<Rightarrow> bool" where
  "hasColor classInfo = (m_color classInfo \<noteq> None)"

definition hasSize :: "'e EntityDefinitionClassInfo \<Rightarrow> bool" where
  "hasSize classInfo = (m_size classInfo \<noteq> None)"

text \<open>
  Modelled from the spec: the accessors \<^verbatim>\<open>color()\<close> and \<^verbatim>\<open>size()\<close>. The parser calls them only
  where \<^verbatim>\<open>hasColor()\<close> and \<^verbatim>\<open>hasSize()\<close> hold.
\<close>

definition color :: "'e EntityDefinitionClassInfo \<Rightarrow> Color" where
  "color classInfo = the (m_color classInfo)"

definition sizeBounds :: "'e EntityDefinitionClassInfo \<Rightarrow> bbox3" where
  "sizeBounds classInfo = the (m_size classInfo)"

text \<open>
  Modelled from the spec: \<^verbatim>\<open>resolveBaseClasses\<close> is not among the sources. Each named base
  class found in the registry fills in only what the declaration left unset; what the
  declaration sets itself always wins (spec, section 4.2). A description is always set
  when this runs. A name that is not in the registry is skipped.
\<close>

definition inheritFrom ::
  "'e EntityDefinitionClassInfo \<Rightarrow> 'e EntityDefinitionClassInfo \<Rightarrow> 'e EntityDefinitionClassInfo" where
  "inheritFrom baseClass classInfo =
     classInfo
       \<lparr>m_color := (case m_color classInfo of None \<Rightarrow> m_color baseClass | Some c \<Rightarrow> Some c),
        m_size := (case m_size classInfo of None \<Rightarrow> m_size baseClass | Some b \<Rightarrow> Some b),
        m_attributes := m_attributes classInfo @
          filter (\<lambda>a. attributeName a \<notin> set (map attributeName (m_attributes classInfo)))
            (m_attributes baseClass),
        m_modelDefinition := (case m_modelDefinition classInfo of
                                None \<Rightarrow> m_modelDefinition baseClass | Some m \<Rightarrow> Some m)\<rparr>"

fun resolveBaseClasses ::
  "(string \<rightharpoonup> 'e EntityDefinitionClassInfo) \<Rightarrow> string list \<Rightarrow>
   'e EntityDefinitionClassInfo \<Rightarrow> 'e EntityDefinitionClassInfo" where
  "resolveBaseClasses baseClasses [] classInfo = classInfo"
| "resolveBaseClasses baseClasses (classname # classnames) classInfo =
     resolveBaseClasses baseClasses classnames
       (case baseClasses classname of
          None \<Rightarrow> classInfo
        | Some baseClass \<Rightarrow> inheritFrom baseClass classInfo)"

text \<open>
  Modelled from the spec: the descriptor classes are not among the sources. A point class
  has a colour and a size, a brush class a colour and no size (spec, section 3); the fields
  are the arguments the parser passes: \<^verbatim>\<open>PointEntityDefinition(name, color, size, description, attributes,
  modelDefinition)\<close> and \<^verbatim>\<open>BrushEntityDefinition(name, color, description, attributes)\<close>.
\<close>

datatype 'e EntityDefinition =
    PointEntityDefinition string Color bbox3 string "AttributeDefinition list" "'e option"
  | BrushEntityDefinition string Color string "AttributeDefinition list"

section \<open>The parser object and its collaborators\<close>

text \<open>
  Modelled from the spec: \<^verbatim>\<open>ParserStatus\<close> is not among the sources. It receives the
  progress updates and the warnings, each warning with a line, a column and a message
  (spec, section 6).
\<close>

record ParserStatus =
  warnings :: "(nat \<times> nat \<times> string) list"
  progressReports :: "real list"

definition warn :: "nat \<Rightarrow> nat \<Rightarrow> string \<Rightarrow> ParserStatus \<Rightarrow> ParserStatus" where
  "warn line column str s = s\<lparr>warnings := warnings s @ [(line, column, str)]\<rparr>"

definition progress :: "real \<Rightarrow> ParserStatus \<Rightarrow> ParserStatus" where
  "progress fraction s = s\<lparr>progressReports := progressReports s @ [fraction]\<rparr>"

text \<open>Modelled from the spec: \<^verbatim>\<open>Tokenizer::progress\<close>, the fraction of the input consumed.\<close>

definition Tokenizer_progress :: "TokenizerState \<Rightarrow> real" where
  "Tokenizer_progress t =
     (if m_offs t + length (m_cur t) = 0 then 0
      else real (m_offs t) / real (m_offs t + length (m_cur t)))"

text \<open>
  The state one parse works on: the members of \<^verbatim>\<open>DefParser\<close>, the \<^verbatim>\<open>ParserStatus\<close> it is
  handed by reference, and the number of descriptors created with \<^verbatim>\<open>new\<close> and not yet
  deleted.
\<close>

record 'e DefParser =
  m_defaultEntityColor :: Color
  m_tokenizer :: TokenizerState
  m_baseClasses :: "string \<rightharpoonup> 'e EntityDefinitionClassInfo"
  status :: ParserStatus
  liveDefinitions :: nat

definition DefParser :: "string \<Rightarrow> Color \<Rightarrow> 'e DefParser" where
  "DefParser str defaultEntityColor =
     \<lparr>m_defaultEntityColor = defaultEntityColor, m_tokenizer = Tokenizer str,
      m_baseClasses = Map.empty, status = \<lparr>warnings = [], progressReports = []\<rparr>,
      liveDefinitions = 0\<rparr>"

text \<open>A call \<^verbatim>\<open>m_tokenizer.f()\<close>, or of a member function that touches only the scanner.\<close>

definition onTokenizer ::
  "(TokenizerState \<Rightarrow> ('a, TokenizerState) result) \<Rightarrow> 'e DefParser \<Rightarrow> ('a, 'e DefParser) result" where
  "onTokenizer f p =
     (case f (m_tokenizer p) of
        Inl (e, t) \<Rightarrow> Inl (e, p\<lparr>m_tokenizer := t\<rparr>)
      | Inr (a, t) \<Rightarrow> Inr (a, p\<lparr>m_tokenizer := t\<rparr>))"

text \<open>
  \<^verbatim>\<open>ELParser\<close>, \<^verbatim>\<open>LegacyModelDefinitionParser\<close> and the expression type with its
  \<^verbatim>\<open>optimize\<close> and \<^verbatim>\<open>asString\<close> are not among the sources: they are parameters. Each
  sub-parser shares the scanner of the parser. It sees the state of the scanner and either
  throws a \<^verbatim>\<open>ParserException\<close> or returns an expression and the number of characters it
  consumed; the legacy parser is also handed the status, and returns it.
\<close>

record 'e Collaborators =
  elParse :: "TokenizerState \<Rightarrow> error + ('e \<times> nat)"
  legacyParse :: "TokenizerState \<Rightarrow> ParserStatus \<Rightarrow> (error + ('e \<times> nat)) \<times> ParserStatus"
  optimize :: "'e \<Rightarrow> 'e"
  asString :: "'e \<Rightarrow> string"

definition ELParser_parse :: "'e Collaborators \<Rightarrow> 'e DefParser \<Rightarrow> ('e, 'e DefParser) result" where
  "ELParser_parse cl p =
     (case elParse cl (m_tokenizer p) of
        Inl e \<Rightarrow> Inl (e, p)
      | Inr (expression, n) \<Rightarrow> Inr (expression, p\<lparr>m_tokenizer := advanceN n (m_tokenizer p)\<rparr>))"

definition LegacyModelDefinitionParser_parse ::
  "'e Collaborators \<Rightarrow> 'e DefParser \<Rightarrow> ('e, 'e DefParser) result" where
  "LegacyModelDefinitionParser_parse cl p =
     (case legacyParse cl (m_tokenizer p) (status p) of
        (Inl e, s) \<Rightarrow> Inl (e, p\<lparr>status := s\<rparr>)
      | (Inr (expression, n), s) \<Rightarrow>
          Inr (expression, p\<lparr>m_tokenizer := advanceN n (m_tokenizer p), status := s\<rparr>))"

subsection \<open>\<^verbatim>\<open>DefParser::parseModel\<close>\<close>

definition legacyWarning :: "string \<Rightarrow> string" where
  "legacyWarning replacement =
     ''Legacy model expressions are deprecated, replace with '' @ [CHR 0x27] @ replacement @ [CHR 0x27]"

text \<open>
  The body of the outer \<^verbatim>\<open>try\<close> block: the modern expression grammar, the closing
  parenthesis, the optimization.
\<close>

definition parseModel_modern :: "'e Collaborators \<Rightarrow> 'e DefParser \<Rightarrow> ('e, 'e DefParser) result" where
  "parseModel_modern cl p =
     andThen (ELParser_parse cl p) (\<lambda>expression p.
     andThen (expect [CParenthesis] (onTokenizer nextToken p)) (\<lambda>_ p.
     Inr (optimize cl expression, p)))"

text \<open>
  The body of the inner \<^verbatim>\<open>try\<close> block after the snapshot is restored: the legacy grammar,
  the closing parenthesis, the optimization and the warning.
\<close>

definition parseModel_legacy ::
  "'e Collaborators \<Rightarrow> nat \<Rightarrow> nat \<Rightarrow> 'e DefParser \<Rightarrow> ('e, 'e DefParser) result" where
  "parseModel_legacy cl line column p =
     andThen (LegacyModelDefinitionParser_parse cl p) (\<lambda>expression p.
     andThen (expect [CParenthesis] (onTokenizer nextToken p)) (\<lambda>_ p.
     let expression = optimize cl expression
     in Inr (expression,
             p\<lparr>status := warn line column (legacyWarning (asString cl expression)) (status p)\<rparr>)))"

definition parseModel :: "'e Collaborators \<Rightarrow> 'e DefParser \<Rightarrow> ('e, 'e DefParser) result" where
  "parseModel cl p =
     andThen (expect [OParenthesis] (onTokenizer nextToken p)) (\<lambda>_ p.
       let snapshot = m_tokenizer p;
           line = m_line (m_tokenizer p);
           column = m_column (m_tokenizer p)
       in case parseModel_modern cl p of
            Inr r \<Rightarrow> Inr r
          | Inl (e, p) \<Rightarrow>
              (case parseModel_legacy cl line column (p\<lparr>m_tokenizer := snapshot\<rparr>) of
                 Inr r \<Rightarrow> Inr r
               | Inl (_, p) \<Rightarrow> Inl (e, p\<lparr>m_tokenizer := snapshot\<rparr>)))"

subsection \<open>\<^verbatim>\<open>DefParser::parseAttribute\<close> and \<^verbatim>\<open>parseAttributes\<close>\<close>

text \<open>
  \<^verbatim>\<open>parseAttribute\<close> updates the class information and the list of base-class names handed
  to it by reference; the model returns them with the boolean result.
\<close>

definition parseAttribute ::
  "'e Collaborators \<Rightarrow> 'e EntityDefinitionClassInfo \<Rightarrow> string list \<Rightarrow> 'e DefParser \<Rightarrow>
   (bool \<times> 'e EntityDefinitionClassInfo \<times> string list, 'e DefParser) result" where
  "parseAttribute cl classInfo superClasses p =
     andThen (expect [Word, CBrace] (onTokenizer nextTokenIgnoringNewlines p)) (\<lambda>token p.
       if ttype token \<noteq> Word then Inr ((False, classInfo, superClasses), p)
       else
         let typeName = tdata token in
         andThen
           (if typeName = ''default''
            then andThen (onTokenizer parseDefaultAttribute p) (\<lambda>_ p.
                   Inr ((classInfo, superClasses), p))
            else if typeName = ''base''
            then andThen (onTokenizer parseBaseAttribute p) (\<lambda>basename p.
                   Inr ((classInfo, superClasses @ [basename]), p))
            else if typeName = ''choice''
            then andThen (onTokenizer parseChoiceAttribute p) (\<lambda>a p.
                   Inr ((addAttributeDefinition a classInfo, superClasses), p))
            else if typeName = ''model''
            then andThen (parseModel cl p) (\<lambda>m p.
                   Inr ((setModelDefinition m classInfo, superClasses), p))
            else Inr ((classInfo, superClasses), p))
           (\<lambda>(classInfo, superClasses) p.
              andThen (expect [Semicolon] (onTokenizer nextTokenIgnoringNewlines p)) (\<lambda>_ p.
              Inr ((True, classInfo, superClasses), p))))"

lemma onTokenizer_Inr:
  "onTokenizer f p = Inr (a, p') \<longleftrightarrow>
     (\<exists>t'. f (m_tokenizer p) = Inr (a, t') \<and> p' = p\<lparr>m_tokenizer := t'\<rparr>)"
  by (auto simp: onTokenizer_def split: sum.splits)

lemma onTokenizer_Inl:
  "onTokenizer f p = Inl (e, p') \<longleftrightarrow>
     (\<exists>t'. f (m_tokenizer p) = Inl (e, t') \<and> p' = p\<lparr>m_tokenizer := t'\<rparr>)"
  by (auto simp: onTokenizer_def split: sum.splits)

lemma advanceN_le: "length (m_cur (advanceN n t)) \<le> length (m_cur t)"
proof (induction n arbitrary: t)
  case 0
  show ?case by simp
next
  case (Suc n)
  from Suc [of "advance t"] length_advance_le [of t] show ?case by simp
qed

lemma expect_onTokenizer_nextToken_progress:
  "expect typeMask (onTokenizer nextToken p) = Inr (tok, p') \<Longrightarrow>
     length (m_cur (m_tokenizer p')) \<le> length (m_cur (m_tokenizer p)) \<and>
     (Eof \<notin> set typeMask \<longrightarrow> length (m_cur (m_tokenizer p')) < length (m_cur (m_tokenizer p)))"
  by (auto simp: expect_Inr onTokenizer_Inr hasType_def dest: nextToken_le nextToken_less)

lemma expect_onTokenizer_nextTokenIgnoringNewlines_progress:
  "expect typeMask (onTokenizer nextTokenIgnoringNewlines p) = Inr (tok, p') \<Longrightarrow>
     length (m_cur (m_tokenizer p')) \<le> length (m_cur (m_tokenizer p)) \<and>
     (Eof \<notin> set typeMask \<longrightarrow> length (m_cur (m_tokenizer p')) < length (m_cur (m_tokenizer p)))"
  by (auto simp: expect_Inr onTokenizer_Inr hasType_def
      dest: nextTokenIgnoringNewlines_le nextTokenIgnoringNewlines_less)

lemma ELParser_parse_le:
  "ELParser_parse cl p = Inr (x, p') \<Longrightarrow>
   length (m_cur (m_tokenizer p')) \<le> length (m_cur (m_tokenizer p))"
  by (auto simp: ELParser_parse_def advanceN_le split: sum.splits)

lemma LegacyModelDefinitionParser_parse_le:
  "LegacyModelDefinitionParser_parse cl p = Inr (x, p') \<Longrightarrow>
   length (m_cur (m_tokenizer p')) \<le> length (m_cur (m_tokenizer p))"
  by (auto simp: LegacyModelDefinitionParser_parse_def advanceN_le split: sum.splits prod.splits)

lemma parseModel_modern_le:
  "parseModel_modern cl p = Inr (m, p') \<Longrightarrow>
   length (m_cur (m_tokenizer p')) \<le> length (m_cur (m_tokenizer p))"
  by (auto simp: parseModel_modern_def andThen_Inr
      dest!: ELParser_parse_le expect_onTokenizer_nextToken_progress)

lemma parseModel_legacy_le:
  "parseModel_legacy cl line column p = Inr (m, p') \<Longrightarrow>
   length (m_cur (m_tokenizer p')) \<le> length (m_cur (m_tokenizer p))"
  by (auto simp: parseModel_legacy_def andThen_Inr Let_def
      dest!: LegacyModelDefinitionParser_parse_le expect_onTokenizer_nextToken_progress)

lemma parseModel_le:
  assumes "parseModel cl p = Inr (m, p')"
  shows "length (m_cur (m_tokenizer p')) \<le> length (m_cur (m_tokenizer p))"
proof -
  from assms obtain tok p0 where
    o: "expect [OParenthesis] (onTokenizer nextToken p) = Inr (tok, p0)" and
    b: "(case parseModel_modern cl p0 of
            Inr r \<Rightarrow> Inr r
          | Inl (e, p) \<Rightarrow>
              (case parseModel_legacy cl (m_line (m_tokenizer p0)) (m_column (m_tokenizer p0))
                      (p\<lparr>m_tokenizer := m_tokenizer p0\<rparr>) of
                 Inr r \<Rightarrow> Inr r
               | Inl (_, p) \<Rightarrow> Inl (e, p\<lparr>m_tokenizer := m_tokenizer p0\<rparr>))) = Inr (m, p')"
    by (auto simp: parseModel_def andThen_Inr Let_def)
  have "length (m_cur (m_tokenizer p')) \<le> length (m_cur (m_tokenizer p0))"
  proof (cases "parseModel_modern cl p0")
    case (Inr r)
    with b show ?thesis by (auto dest: parseModel_modern_le)
  next
    case (Inl x)
    obtain e p1 where x: "x = (e, p1)" by (cases x)
    with b Inl have "parseModel_legacy cl (m_line (m_tokenizer p0)) (m_column (m_tokenizer p0))
        (p1\<lparr>m_tokenizer := m_tokenizer p0\<rparr>) = Inr (m, p')"
      by (auto split: sum.splits)
    from parseModel_legacy_le [OF this] show ?thesis by simp
  qed
  with expect_onTokenizer_nextToken_progress [OF o] show ?thesis by simp
qed

lemma onTokenizer_le:
  assumes "onTokenizer f p = Inr (a, p')"
    and "\<And>a t'. f (m_tokenizer p) = Inr (a, t') \<Longrightarrow> length (m_cur t') \<le> length (m_cur (m_tokenizer p))"
  shows "length (m_cur (m_tokenizer p')) \<le> length (m_cur (m_tokenizer p))"
  using assms by (auto simp: onTokenizer_Inr)

lemma parseAttribute_progress:
  assumes "parseAttribute cl classInfo superClasses p = Inr ((b, classInfo', superClasses'), p')"
  shows "length (m_cur (m_tokenizer p')) \<le> length (m_cur (m_tokenizer p)) \<and>
         (b \<longrightarrow> length (m_cur (m_tokenizer p')) < length (m_cur (m_tokenizer p)))"
proof -
  from assms obtain token p1 where
    e: "expect [Word, CBrace] (onTokenizer nextTokenIgnoringNewlines p) = Inr (token, p1)" and
    r: "(if ttype token \<noteq> Word then Inr ((False, classInfo, superClasses), p1)
       else
         let typeName = tdata token in
         andThen
           (if typeName = ''default''
            then andThen (onTokenizer parseDefaultAttribute p1) (\<lambda>_ p.
                   Inr ((classInfo, superClasses), p))
            else if typeName = ''base''
            then andThen (onTokenizer parseBaseAttribute p1) (\<lambda>basename p.
                   Inr ((classInfo, superClasses @ [basename]), p))
            else if typeName = ''choice''
            then andThen (onTokenizer parseChoiceAttribute p1) (\<lambda>a p.
                   Inr ((addAttributeDefinition a classInfo, superClasses), p))
            else if typeName = ''model''
            then andThen (parseModel cl p1) (\<lambda>m p.
                   Inr ((setModelDefinition m classInfo, superClasses), p))
            else Inr ((classInfo, superClasses), p1))
           (\<lambda>(classInfo, superClasses) p.
              andThen (expect [Semicolon] (onTokenizer nextTokenIgnoringNewlines p)) (\<lambda>_ p.
              Inr ((True, classInfo, superClasses), p)))) = Inr ((b, classInfo', superClasses'), p')"
    by (auto simp: parseAttribute_def andThen_Inr)
  note e1 = expect_onTokenizer_nextTokenIgnoringNewlines_progress [OF e]
  show ?thesis
  proof (cases "ttype token \<noteq> Word")
    case True
    with r e1 show ?thesis by auto
  next
    case False
    with r obtain ci sc p2 u p3 where
      d: "(if tdata token = ''default''
            then andThen (onTokenizer parseDefaultAttribute p1) (\<lambda>_ p.
                   Inr ((classInfo, superClasses), p))
            else if tdata token = ''base''
            then andThen (onTokenizer parseBaseAttribute p1) (\<lambda>basename p.
                   Inr ((classInfo, superClasses @ [basename]), p))
            else if tdata token = ''choice''
            then andThen (onTokenizer parseChoiceAttribute p1) (\<lambda>a p.
                   Inr ((addAttributeDefinition a classInfo, superClasses), p))
            else if tdata token = ''model''
            then andThen (parseModel cl p1) (\<lambda>m p.
                   Inr ((setModelDefinition m classInfo, superClasses), p))
            else Inr ((classInfo, superClasses), p1)) = Inr ((ci, sc), p2)" and
      s: "expect [Semicolon] (onTokenizer nextTokenIgnoringNewlines p2) = Inr (u, p3)" and
      "p' = p3"
      by (auto simp: andThen_Inr Let_def)
    from d have "length (m_cur (m_tokenizer p2)) \<le> length (m_cur (m_tokenizer p1))"
      by (auto simp: andThen_Inr onTokenizer_Inr split: if_splits
          dest: parseDefaultAttribute_le parseBaseAttribute_le parseChoiceAttribute_le parseModel_le)
    with expect_onTokenizer_nextTokenIgnoringNewlines_progress [OF s] e1 \<open>p' = p3\<close>
    show ?thesis by simp
  qed
qed

function parseAttributesLoop ::
  "'e Collaborators \<Rightarrow> 'e EntityDefinitionClassInfo \<Rightarrow> string list \<Rightarrow> 'e DefParser \<Rightarrow>
   ('e EntityDefinitionClassInfo \<times> string list, 'e DefParser) result" where
  "parseAttributesLoop cl classInfo superClasses p =
     andThen (parseAttribute cl classInfo superClasses p) (\<lambda>r p.
       case r of (continue, classInfo, superClasses) \<Rightarrow>
         if continue then parseAttributesLoop cl classInfo superClasses p
         else Inr ((classInfo, superClasses), p))"
  by pat_completeness auto
termination
  by (relation "measure (\<lambda>(cl, classInfo, superClasses, p). length (m_cur (m_tokenizer p)))")
    (auto dest: parseAttribute_progress)

declare parseAttributesLoop.simps [simp del]

definition parseAttributes ::
  "'e Collaborators \<Rightarrow> 'e EntityDefinitionClassInfo \<Rightarrow> string list \<Rightarrow> 'e DefParser \<Rightarrow>
   ('e EntityDefinitionClassInfo \<times> string list, 'e DefParser) result" where
  "parseAttributes cl classInfo superClasses p =
     andThen (onTokenizer peekToken p) (\<lambda>token p.
       if ttype token = OBrace
       then andThen (onTokenizer nextToken p) (\<lambda>_ p.
              parseAttributesLoop cl classInfo superClasses p)
       else Inr ((classInfo, superClasses), p))"

lemma parseAttributesLoop_le:
  "parseAttributesLoop cl classInfo superClasses p = Inr (r, p') \<Longrightarrow>
   length (m_cur (m_tokenizer p')) \<le> length (m_cur (m_tokenizer p))"
proof (induction cl classInfo superClasses p rule: parseAttributesLoop.induct)
  case (1 cl classInfo superClasses p)
  from "1.prems" obtain b ci sc p1 where
    a: "parseAttribute cl classInfo superClasses p = Inr ((b, ci, sc), p1)" and
    r: "(if b then parseAttributesLoop cl ci sc p1 else Inr ((ci, sc), p1)) = Inr (r, p')"
    by (subst (asm) parseAttributesLoop.simps) (auto simp: andThen_Inr)
  show ?case
  proof (cases b)
    case True
    with r have "parseAttributesLoop cl ci sc p1 = Inr (r, p')" by simp
    from "1.IH" [OF a refl refl True this] parseAttribute_progress [OF a] show ?thesis by simp
  next
    case False
    with r parseAttribute_progress [OF a] show ?thesis by auto
  qed
qed

lemma parseAttributes_le:
  "parseAttributes cl classInfo superClasses p = Inr (r, p') \<Longrightarrow>
   length (m_cur (m_tokenizer p')) \<le> length (m_cur (m_tokenizer p))"
  by (auto simp: parseAttributes_def andThen_Inr onTokenizer_Inr peekToken_Inr
      split: if_splits dest!: parseAttributesLoop_le nextToken_le)

subsection \<open>\<^verbatim>\<open>DefParser::parseDefinition\<close>\<close>

text \<open>
  The loop at the head of \<^verbatim>\<open>parseDefinition\<close>: tokens are read until one is the end of the
  input or opens a definition.
\<close>

function skipToDefinition :: "TokenizerState \<Rightarrow> (Token, TokenizerState) result" where
  "skipToDefinition t =
     andThen (nextToken t) (\<lambda>token t'.
       if ttype token \<noteq> Eof \<and> ttype token \<noteq> ODefinition then skipToDefinition t'
       else Inr (token, t'))"
  by pat_completeness auto
termination
  by (relation "measure (\<lambda>t. length (m_cur t))") (auto dest: nextToken_less)

declare skipToDefinition.simps [simp del]

text \<open>
  The header of a declaration after its name, up to the newline that ends it: the colour
  and, only after a colour, the bounds or the word \<^verbatim>\<open>?\<close>, and the spawnflags.
\<close>

definition parseDefinition_header ::
  "'e EntityDefinitionClassInfo \<Rightarrow> TokenizerState \<Rightarrow>
   ('e EntityDefinitionClassInfo, TokenizerState) result" where
  "parseDefinition_header classInfo t =
     andThen (expect [OParenthesis, Newline] (peekToken t)) (\<lambda>token t.
       if ttype token = OParenthesis
       then andThen (parseColor t) (\<lambda>c t.
            let classInfo = setColor c classInfo in
            andThen (expect [OParenthesis, Word] (peekToken t)) (\<lambda>token t.
            andThen (if hasType token [OParenthesis]
                     then andThen (parseBounds t) (\<lambda>b t. Inr (setSize b classInfo, t))
                     else if tdata token = ''?''
                     then andThen (nextToken t) (\<lambda>_ t. Inr (classInfo, t))
                     else Inr (classInfo, t)) (\<lambda>classInfo t.
            andThen (peekToken t) (\<lambda>token t.
              if hasType token [Word, Minus]
              then andThen (parseSpawnflags t) (\<lambda>a t.
                     Inr (addAttributeDefinition a classInfo, t))
              else Inr (classInfo, t)))))
       else Inr (classInfo, t))"

text \<open>
  The part of \<^verbatim>\<open>parseDefinition\<close> that reads one declaration, from the skipping of tokens
  to the token that closes the definition. \<open>None\<close> stands for the end of the input, where
  the source returns \<^verbatim>\<open>nullptr\<close>.
\<close>

definition parseDefinition_classInfo ::
  "'e Collaborators \<Rightarrow> 'e DefParser \<Rightarrow>
   (('e EntityDefinitionClassInfo \<times> string list) option, 'e DefParser) result" where
  "parseDefinition_classInfo cl p =
     andThen (onTokenizer skipToDefinition p) (\<lambda>token p.
       if ttype token = Eof then Inr (None, p)
       else
         andThen (expect [ODefinition] (Inr (token, p))) (\<lambda>_ p.
         andThen (expect [Word] (onTokenizer nextToken p)) (\<lambda>token p.
         let classInfo = setName (tdata token) EntityDefinitionClassInfo in
         andThen (onTokenizer (parseDefinition_header classInfo) p) (\<lambda>classInfo p.
         andThen (expect [Newline] (onTokenizer nextToken p)) (\<lambda>_ p.
         andThen (parseAttributes cl classInfo [] p) (\<lambda>r p.
         case r of (classInfo, superClasses) \<Rightarrow>
         andThen (onTokenizer parseDescription p) (\<lambda>description p.
         let classInfo = setDescription (str_trim description) classInfo in
         andThen (expect [CDefinition] (onTokenizer nextToken p)) (\<lambda>_ p.
         Inr (Some (classInfo, superClasses), p)))))))))"

lemma skipToDefinition_progress:
  "skipToDefinition t = Inr (tok, t') \<Longrightarrow>
     length (m_cur t') \<le> length (m_cur t) \<and>
     (ttype tok \<noteq> Eof \<longrightarrow> length (m_cur t') < length (m_cur t)) \<and>
     (ttype tok = Eof \<or> ttype tok = ODefinition)"
proof (induction t rule: skipToDefinition.induct)
  case (1 t)
  from "1.prems" obtain token t1 where
    n: "nextToken t = Inr (token, t1)" and
    r: "(if ttype token \<noteq> Eof \<and> ttype token \<noteq> ODefinition then skipToDefinition t1
         else Inr (token, t1)) = Inr (tok, t')"
    by (subst (asm) skipToDefinition.simps) (auto simp: andThen_Inr)
  show ?case
  proof (cases "ttype token \<noteq> Eof \<and> ttype token \<noteq> ODefinition")
    case True
    with r have "skipToDefinition t1 = Inr (tok, t')" by simp
    from "1.IH" [OF n True this] nextToken_le [OF n] show ?thesis by auto
  next
    case False
    with r have "tok = token" "t' = t1" by simp_all
    with False nextToken_le [OF n] nextToken_less [OF n] show ?thesis by auto
  qed
qed

lemma parseDefinition_header_le:
  "parseDefinition_header classInfo t = Inr (ci, t') \<Longrightarrow> length (m_cur t') \<le> length (m_cur t)"
  by (auto simp: parseDefinition_header_def andThen_Inr expect_Inr peekToken_Inr Let_def
      split: if_splits
      dest!: parseColor_less parseBounds_le parseSpawnflags_le nextToken_le)

lemma parseDefinition_classInfo_progress:
  assumes "parseDefinition_classInfo cl p = Inr (r, p')"
  shows "length (m_cur (m_tokenizer p')) \<le> length (m_cur (m_tokenizer p)) \<and>
         (r \<noteq> None \<longrightarrow> length (m_cur (m_tokenizer p')) < length (m_cur (m_tokenizer p)))"
proof -
  from assms obtain token p0 where
    s: "onTokenizer skipToDefinition p = Inr (token, p0)" and
    b: "(if ttype token = Eof then Inr (None, p0)
       else
         andThen (expect [ODefinition] (Inr (token, p0))) (\<lambda>_ p.
         andThen (expect [Word] (onTokenizer nextToken p)) (\<lambda>token p.
         let classInfo = setName (tdata token) EntityDefinitionClassInfo in
         andThen (onTokenizer (parseDefinition_header classInfo) p) (\<lambda>classInfo p.
         andThen (expect [Newline] (onTokenizer nextToken p)) (\<lambda>_ p.
         andThen (parseAttributes cl classInfo [] p) (\<lambda>r p.
         case r of (classInfo, superClasses) \<Rightarrow>
         andThen (onTokenizer parseDescription p) (\<lambda>description p.
         let classInfo = setDescription (str_trim description) classInfo in
         andThen (expect [CDefinition] (onTokenizer nextToken p)) (\<lambda>_ p.
         Inr (Some (classInfo, superClasses), p))))))))) = Inr (r, p')"
    by (auto simp: parseDefinition_classInfo_def andThen_Inr)
  from s obtain t0 where s': "skipToDefinition (m_tokenizer p) = Inr (token, t0)"
    and p0: "p0 = p\<lparr>m_tokenizer := t0\<rparr>"
    by (auto simp: onTokenizer_Inr)
  note sp = skipToDefinition_progress [OF s']
  show ?thesis
  proof (cases "ttype token = Eof")
    case True
    with b sp p0 show ?thesis by auto
  next
    case False
    with b obtain tk1 p1 ci2 p2 u3 p3 ci4 sc4 p4 d5 p5 u6 where
      e1: "expect [Word] (onTokenizer nextToken p0) = Inr (tk1, p1)" and
      e2: "onTokenizer (parseDefinition_header (setName (tdata tk1) EntityDefinitionClassInfo)) p1 = Inr (ci2, p2)" and
      e3: "expect [Newline] (onTokenizer nextToken p2) = Inr (u3, p3)" and
      e4: "parseAttributes cl ci2 [] p3 = Inr ((ci4, sc4), p4)" and
      e5: "onTokenizer parseDescription p4 = Inr (d5, p5)" and
      e6: "expect [CDefinition] (onTokenizer nextToken p5) = Inr (u6, p')"
      by (auto simp: andThen_Inr expect_Inr Let_def)
    from e2 have "length (m_cur (m_tokenizer p2)) \<le> length (m_cur (m_tokenizer p1))"
      by (auto simp: onTokenizer_Inr dest: parseDefinition_header_le)
    moreover from e5 have "length (m_cur (m_tokenizer p5)) \<le> length (m_cur (m_tokenizer p4))"
      by (auto simp: onTokenizer_Inr dest: parseDescription_le)
    moreover note expect_onTokenizer_nextToken_progress [OF e1]
      expect_onTokenizer_nextToken_progress [OF e3]
      parseAttributes_le [OF e4]
      expect_onTokenizer_nextToken_progress [OF e6]
    moreover from sp p0 have "length (m_cur (m_tokenizer p0)) \<le> length (m_cur (m_tokenizer p))"
      by simp
    ultimately show ?thesis by simp
  qed
qed

text \<open>
  A descriptor is created with \<^verbatim>\<open>new\<close>; a declaration without a colour is stored in the
  registry under its name and the next declaration is parsed in its place.
\<close>

function parseDefinition ::
  "'e Collaborators \<Rightarrow> 'e DefParser \<Rightarrow> ('e EntityDefinition option, 'e DefParser) result" where
  "parseDefinition cl p =
     andThen (parseDefinition_classInfo cl p) (\<lambda>r p.
       case r of
         None \<Rightarrow> Inr (None, p)
       | Some (classInfo, superClasses) \<Rightarrow>
           if hasColor classInfo
           then (let classInfo = resolveBaseClasses (m_baseClasses p) superClasses classInfo;
                     p = p\<lparr>liveDefinitions := liveDefinitions p + 1\<rparr>
                 in if hasSize classInfo
                    then Inr (Some (PointEntityDefinition (m_name classInfo) (color classInfo)
                                      (sizeBounds classInfo) (m_description classInfo)
                                      (m_attributes classInfo) (m_modelDefinition classInfo)), p)
                    else Inr (Some (BrushEntityDefinition (m_name classInfo)
                                      (if hasColor classInfo then color classInfo
                                       else m_defaultEntityColor p)
                                      (m_description classInfo) (m_attributes classInfo)), p))
           else parseDefinition cl
                  (p\<lparr>m_baseClasses := (m_baseClasses p)(m_name classInfo \<mapsto> classInfo)\<rparr>))"
  by pat_completeness auto
termination
  by (relation "measure (\<lambda>(cl, p). length (m_cur (m_tokenizer p)))")
    (auto dest: parseDefinition_classInfo_progress)

declare parseDefinition.simps [simp del]

lemma parseDefinition_progress:
  "parseDefinition cl p = Inr (r, p') \<Longrightarrow>
     length (m_cur (m_tokenizer p')) \<le> length (m_cur (m_tokenizer p)) \<and>
     (r \<noteq> None \<longrightarrow> length (m_cur (m_tokenizer p')) < length (m_cur (m_tokenizer p)))"
proof (induction cl p rule: parseDefinition.induct)
  case (1 cl p)
  from "1.prems" obtain x p1 where
    c: "parseDefinition_classInfo cl p = Inr (x, p1)" and
    b: "(case x of
         None \<Rightarrow> Inr (None, p1)
       | Some (classInfo, superClasses) \<Rightarrow>
           if hasColor classInfo
           then (let classInfo = resolveBaseClasses (m_baseClasses p1) superClasses classInfo;
                     p = p1\<lparr>liveDefinitions := liveDefinitions p1 + 1\<rparr>
                 in if hasSize classInfo
                    then Inr (Some (PointEntityDefinition (m_name classInfo) (color classInfo)
                                      (sizeBounds classInfo) (m_description classInfo)
                                      (m_attributes classInfo) (m_modelDefinition classInfo)), p)
                    else Inr (Some (BrushEntityDefinition (m_name classInfo)
                                      (if hasColor classInfo then color classInfo
                                       else m_defaultEntityColor p)
                                      (m_description classInfo) (m_attributes classInfo)), p))
           else parseDefinition cl
                  (p1\<lparr>m_baseClasses := (m_baseClasses p1)(m_name classInfo \<mapsto> classInfo)\<rparr>)) = Inr (r, p')"
    by (subst (asm) parseDefinition.simps) (auto simp: andThen_Inr)
  note cp = parseDefinition_classInfo_progress [OF c]
  show ?case
  proof (cases x)
    case None
    with b cp show ?thesis by auto
  next
    case (Some y)
    obtain classInfo superClasses where y: "y = (classInfo, superClasses)" by (cases y)
    show ?thesis
    proof (cases "hasColor classInfo")
      case True
      with b Some y have "m_tokenizer p' = m_tokenizer p1"
        by (auto simp: Let_def split: if_splits)
      with cp Some show ?thesis by simp
    next
      case False
      with b Some y have r: "parseDefinition cl
          (p1\<lparr>m_baseClasses := (m_baseClasses p1)(m_name classInfo \<mapsto> classInfo)\<rparr>) = Inr (r, p')"
        by simp
      from "1.IH" [OF c Some y [symmetric] False r] cp Some show ?thesis by simp
    qed
  qed
qed

subsection \<open>\<^verbatim>\<open>DefParser::doParseDefinitions\<close>\<close>

text \<open>Modelled from the spec: \<^verbatim>\<open>kdl::vec_clear_and_delete\<close> deletes every element of the vector.\<close>

definition vec_clear_and_delete :: "'e EntityDefinition list \<Rightarrow> 'e DefParser \<Rightarrow> 'e DefParser" where
  "vec_clear_and_delete definitions p =
     p\<lparr>liveDefinitions := liveDefinitions p - length definitions\<rparr>"

definition reportProgress :: "'e DefParser \<Rightarrow> 'e DefParser" where
  "reportProgress p = p\<lparr>status := progress (Tokenizer_progress (m_tokenizer p)) (status p)\<rparr>"

text \<open>
  The body of the \<^verbatim>\<open>try\<close> block, entered at each call of \<^verbatim>\<open>parseDefinition\<close> with the
  descriptors pushed so far: the call, the progress report, and the test of the loop.
  Where the call throws, the handler deletes the descriptors and throws the exception again.
\<close>

function doParseDefinitionsLoop ::
  "'e Collaborators \<Rightarrow> 'e EntityDefinition list \<Rightarrow> 'e DefParser \<Rightarrow>
   ('e EntityDefinition list, 'e DefParser) result" where
  "doParseDefinitionsLoop cl definitions p =
     (case parseDefinition cl p of
        Inl (e, p) \<Rightarrow> Inl (e, vec_clear_and_delete definitions p)
      | Inr (definition, p) \<Rightarrow>
          (let p = reportProgress p
           in case definition of
                None \<Rightarrow> Inr (definitions, p)
              | Some d \<Rightarrow> doParseDefinitionsLoop cl (definitions @ [d]) p))"
  by pat_completeness auto
termination
  by (relation "measure (\<lambda>(cl, definitions, p). length (m_cur (m_tokenizer p)))")
    (auto simp: reportProgress_def dest: parseDefinition_progress)

declare doParseDefinitionsLoop.simps [simp del]

definition doParseDefinitions ::
  "'e Collaborators \<Rightarrow> 'e DefParser \<Rightarrow> ('e EntityDefinition list, 'e DefParser) result" where
  "doParseDefinitions cl p = doParseDefinitionsLoop cl [] p"

section \<open>Concrete inputs\<close>

text \<open>The value returned or the exception thrown, without the state.\<close>

definition outcome :: "('a, 's) result \<Rightarrow> error + 'a" where
  "outcome r = (case r of Inl (e, _) \<Rightarrow> Inl e | Inr (a, _) \<Rightarrow> Inr a)"

text \<open>
  A pair of sub-parsers to run the parser on concrete inputs. Expressions are strings. The
  modern grammar accepts a text in braces and the legacy grammar a text in double quotes;
  each reads up to the closing parenthesis and fails at its own position otherwise.
\<close>

definition exampleExpression :: "TokenizerState \<Rightarrow> string" where
  "exampleExpression t = takeWhile (\<lambda>c. c \<noteq> CHR '')'') (m_cur t)"

definition exampleCollaborators :: "string Collaborators" where
  "exampleCollaborators =
     \<lparr>elParse = (\<lambda>t.
        if curChar t = CHR ''{''
        then Inr (exampleExpression t, length (exampleExpression t))
        else Inl (ParserException (m_line t) (m_column t) ''modern grammar'')),
      legacyParse = (\<lambda>t s.
        (if curChar t = CHR 0x22
         then Inr (exampleExpression t, length (exampleExpression t))
         else Inl (ParserException (m_line t) (m_column t) ''legacy grammar''), s)),
      optimize = (\<lambda>e. e),
      asString = (\<lambda>e. e)\<rparr>"

text \<open>The default colour handed to the parser in the examples.\<close>

definition white :: Color where
  "white = [Finite32 1, Finite32 1, Finite32 1, Finite32 1]"

definition newline :: string where
  "newline = [CHR 0x0A]"

definition quoted :: "string \<Rightarrow> string" where
  "quoted s = [CHR 0x22] @ s @ [CHR 0x22]"

text \<open>Two declarations: a base class with a model, and a point class that names it as a base.\<close>

definition twoBlocks :: string where
  "twoBlocks =
     ''/*QUAKED base_item'' @ newline @ ''{ model({x}); }'' @ newline @ ''*/'' @ newline @
     ''/*QUAKED item_weapon (0 0 1) (-16 -16 0) (16 16 32)'' @ newline @
     ''{ base('' @ quoted ''base_item'' @ ''); }'' @ newline @ ''*/''"

section \<open>Notions used in the statements\<close>

text \<open>
  Below \<^verbatim>\<open>parseDefinition\<close> nothing creates or deletes a descriptor, whether the call
  returns or throws.
\<close>

definition keepsLive :: "'e DefParser \<Rightarrow> ('a, 'e DefParser) result \<Rightarrow> bool" where
  "keepsLive p r =
     (case r of
        Inl (_, p') \<Rightarrow> liveDefinitions p' = liveDefinitions p
      | Inr (_, p') \<Rightarrow> liveDefinitions p' = liveDefinitions p)"

text \<open>
  Below \<^verbatim>\<open>parseDefinition\<close> nothing writes to the registry of base classes either.
\<close>

definition keepsBaseClasses :: "'e DefParser \<Rightarrow> ('a, 'e DefParser) result \<Rightarrow> bool" where
  "keepsBaseClasses p r =
     (case r of
        Inl (_, p') \<Rightarrow> m_baseClasses p' = m_baseClasses p
      | Inr (_, p') \<Rightarrow> m_baseClasses p' = m_baseClasses p)"

text \<open>
  The clause \<open>Spawnflags := (WORD | '-')+\<close> of the spec, read from the scanner: the tokens
  \<open>toks\<close> are the words and minus signs found from the state \<open>t\<close> on, one after the other, the
  state after them is \<open>t'\<close>, and the token that follows is neither.
\<close>

fun spawnflagTokens :: "Token list \<Rightarrow> TokenizerState \<Rightarrow> TokenizerState \<Rightarrow> bool" where
  "spawnflagTokens [] t t' =
     (t' = t \<and> (case peekToken t of
                   Inl _ \<Rightarrow> False
                 | Inr (token, _) \<Rightarrow> \<not> hasType token [Word, Minus]))"
| "spawnflagTokens (tok # toks) t t' =
     (hasType tok [Word, Minus] \<and>
      (case nextToken t of
         Inl _ \<Rightarrow> False
       | Inr (token, t1) \<Rightarrow> token = tok \<and> spawnflagTokens toks t1 t'))"

text \<open>The options \<^verbatim>\<open>parseSpawnflags\<close> adds for these tokens, the first with the index \<open>n\<close>.\<close>

fun spawnflagOptions :: "nat \<Rightarrow> Token list \<Rightarrow> FlagsAttributeOption list" where
  "spawnflagOptions n [] = []"
| "spawnflagOptions n (tok # toks) =
     \<lparr>flagValue = sint (push_bit n (1 :: 32 word)),
      shortDescription = (if hasType tok [Word] then tdata tok else []),
      longDescription = [], isDefault = False\<rparr> # spawnflagOptions (Suc n) toks"

fun flagsOptions :: "AttributeDefinition \<Rightarrow> FlagsAttributeOption list" where
  "flagsOptions (FlagsAttributeDefinition _ options) = options"
| "flagsOptions (ChoiceAttributeDefinition _ _ _ _ _) = []"

section \<open>Auxiliary lemmas\<close>

text \<open>The definitions to unfold when the scanner and the parser run on a concrete input.\<close>

lemmas tokenizer_defs = eof_def curChar_def lookAhead_def advance_def isAnyOf_def isWhitespace_def
  isDigit_def Whitespace_def WordDelims_def discardWhile_def discardUntil_def textBetween_def
  readInteger_def readDecimal_def readUntil_def readQuotedString_def singleCharToken_def
  caseOParenthesis_def caseStar_def caseNewline_def caseDefault_def Tokenizer_def nextToken_def
  peekToken_def

lemmas parser_defs = parseDefinition_classInfo_def skipToDefinition.simps
  parseDefinition_header_def parseAttributes_def parseAttributesLoop.simps parseAttribute_def
  parseModel_def parseModel_modern_def parseModel_legacy_def ELParser_parse_def
  LegacyModelDefinitionParser_parse_def parseDescription_def readRemainder_def
  readRemainderLoop.simps str_trim_def nextTokenIgnoringNewlines.simps onTokenizer_def
  expect_def hasType_def DefParser_def EntityDefinitionClassInfo_def setName_def
  setModelDefinition_def setDescription_def exampleCollaborators_def exampleExpression_def
  emitToken.simps advanceWhile.simps tokenizer_defs newline_def quoted_def Let_def

lemma parseColorLoop_unfold:
  "length col = 4 \<Longrightarrow>
   parseColorLoop i col t =
     (if i < 3
      then andThen (expect [Decimal, Integer] (nextToken t))
             (\<lambda>token t'.
                parseColorLoop (i + 1)
                  (col[i := (if float32_greater (toFloat32 (tdata token)) (Finite32 1)
                             then float32_divide (toFloat32 (tdata token)) 255
                             else toFloat32 (tdata token))]) t')
      else Inr (col, t))"
  by (subst parseColorLoop.simps) (auto simp: Let_def andThen_def split: sum.splits)

lemma parseVectorLoop_length:
  "parseVectorLoop i vec t = Inr (v, t') \<Longrightarrow> length v = length vec"
proof (induction i vec t rule: parseVectorLoop.induct)
  case (1 i vec t)
  show ?case
  proof (cases "i < 3")
    case True
    with "1.prems" obtain token t1 where
      e: "expect [Integer, Decimal] (nextToken t) = Inr (token, t1)" and
      r: "parseVectorLoop (i + 1) (vec[i := toFloat (tdata token)]) t1 = Inr (v, t')"
      by (subst (asm) parseVectorLoop.simps) (auto simp: andThen_Inr)
    from "1.IH" [OF True e r] show ?thesis by simp
  next
    case False
    with "1.prems" show ?thesis by (subst (asm) parseVectorLoop.simps) simp
  qed
qed

lemma parseVector_length: "parseVector t = Inr (v, t') \<Longrightarrow> length v = 3"
  by (auto simp: parseVector_def dest: parseVectorLoop_length)

lemma keepsLive_andThen:
  assumes "keepsLive p r" and "\<And>a s. r = Inr (a, s) \<Longrightarrow> keepsLive s (f a s)"
  shows "keepsLive p (andThen r f)"
proof (cases r)
  case (Inl x)
  with assms(1) show ?thesis by (simp add: keepsLive_def)
next
  case (Inr y)
  obtain a s where y: "y = (a, s)" by (cases y)
  with Inr assms(1) have "liveDefinitions s = liveDefinitions p" by (simp add: keepsLive_def)
  moreover from assms(2) [of a s] Inr y have "keepsLive s (f a s)" by simp
  ultimately show ?thesis using Inr y by (auto simp: keepsLive_def split: sum.splits)
qed

lemma keepsLive_Inr [simp]: "keepsLive p (Inr (a, p)) "
  by (simp add: keepsLive_def)

lemma keepsLive_expect: "keepsLive p r \<Longrightarrow> keepsLive p (expect typeMask r)"
  unfolding expect_def by (rule keepsLive_andThen) (auto simp: keepsLive_def)

lemma keepsLive_onTokenizer: "keepsLive p (onTokenizer f p)"
  by (auto simp: keepsLive_def onTokenizer_def split: sum.splits)

lemma keepsLive_tokenizer [simp]: "keepsLive (p\<lparr>m_tokenizer := t\<rparr>) r = keepsLive p r"
  by (auto simp: keepsLive_def split: sum.splits)

lemma keepsLive_parseModel_modern: "keepsLive p (parseModel_modern cl p)"
  unfolding parseModel_modern_def
  by (intro keepsLive_andThen keepsLive_expect keepsLive_onTokenizer)
    (auto simp: keepsLive_def ELParser_parse_def split: sum.splits)

lemma keepsLive_parseModel_legacy: "keepsLive p (parseModel_legacy cl line column p)"
  unfolding parseModel_legacy_def
  by (intro keepsLive_andThen keepsLive_expect keepsLive_onTokenizer)
    (auto simp: keepsLive_def LegacyModelDefinitionParser_parse_def Let_def
      split: sum.splits prod.splits)

lemma keepsLive_parseModel: "keepsLive p (parseModel cl p)"
  unfolding parseModel_def
proof (rule keepsLive_andThen)
  show "keepsLive p (expect [OParenthesis] (onTokenizer nextToken p))"
    by (intro keepsLive_expect keepsLive_onTokenizer)
next
  fix a s
  have m: "keepsLive s (parseModel_modern cl s)" by (rule keepsLive_parseModel_modern)
  show "keepsLive s
        (let snapshot = m_tokenizer s; line = m_line (m_tokenizer s);
             column = m_column (m_tokenizer s)
         in case parseModel_modern cl s of
              Inl (e, p) \<Rightarrow>
                (case parseModel_legacy cl line column (p\<lparr>m_tokenizer := snapshot\<rparr>) of
                   Inl (_, p) \<Rightarrow> Inl (e, p\<lparr>m_tokenizer := snapshot\<rparr>)
                 | Inr r \<Rightarrow> Inr r)
            | Inr r \<Rightarrow> Inr r)"
  proof (cases "parseModel_modern cl s")
    case (Inr r)
    with m show ?thesis by (simp add: keepsLive_def Let_def)
  next
    case (Inl x)
    obtain e p1 where x: "x = (e, p1)" by (cases x)
    from m Inl x have l1: "liveDefinitions p1 = liveDefinitions s" by (simp add: keepsLive_def)
    have "keepsLive (p1\<lparr>m_tokenizer := m_tokenizer s\<rparr>)
        (parseModel_legacy cl (m_line (m_tokenizer s)) (m_column (m_tokenizer s))
           (p1\<lparr>m_tokenizer := m_tokenizer s\<rparr>))"
      by (rule keepsLive_parseModel_legacy)
    with l1 Inl x show ?thesis
      by (auto simp: keepsLive_def Let_def split: sum.splits)
  qed
qed

lemma keepsLive_parseAttribute: "keepsLive p (parseAttribute cl classInfo superClasses p)"
  unfolding parseAttribute_def Let_def
  by (intro keepsLive_andThen keepsLive_expect keepsLive_onTokenizer)
    (auto intro!: keepsLive_andThen keepsLive_expect keepsLive_onTokenizer keepsLive_parseModel)

lemma keepsLive_parseAttributesLoop:
  "keepsLive p (parseAttributesLoop cl classInfo superClasses p)"
proof (induction cl classInfo superClasses p rule: parseAttributesLoop.induct)
  case (1 cl classInfo superClasses p)
  show ?case
    by (subst parseAttributesLoop.simps)
      (auto intro!: keepsLive_andThen keepsLive_parseAttribute "1.IH")
qed

lemma keepsLive_parseAttributes: "keepsLive p (parseAttributes cl classInfo superClasses p)"
  unfolding parseAttributes_def
  by (auto intro!: keepsLive_andThen keepsLive_onTokenizer keepsLive_parseAttributesLoop)

lemma keepsLive_parseDefinition_classInfo: "keepsLive p (parseDefinition_classInfo cl p)"
  unfolding parseDefinition_classInfo_def Let_def
  by (auto intro!: keepsLive_andThen keepsLive_expect keepsLive_onTokenizer
      keepsLive_parseAttributes)

lemma liveDefinitions_parseDefinition:
  "(case parseDefinition cl p of
      Inl (_, p') \<Rightarrow> liveDefinitions p' = liveDefinitions p
    | Inr (None, p') \<Rightarrow> liveDefinitions p' = liveDefinitions p
    | Inr (Some _, p') \<Rightarrow> liveDefinitions p' = liveDefinitions p + 1)"
proof (induction cl p rule: parseDefinition.induct)
  case (1 cl p)
  note k = keepsLive_parseDefinition_classInfo [where cl = cl and p = p]
  show ?case
  proof (cases "parseDefinition_classInfo cl p")
    case (Inl x)
    with k show ?thesis
      by (subst parseDefinition.simps) (auto simp: keepsLive_def)
  next
    case (Inr y)
    obtain r p1 where y: "y = (r, p1)" by (cases y)
    from k Inr y have l1: "liveDefinitions p1 = liveDefinitions p" by (simp add: keepsLive_def)
    show ?thesis
    proof (cases r)
      case None
      with Inr y l1 show ?thesis by (subst parseDefinition.simps) simp
    next
      case (Some z)
      obtain classInfo superClasses where z: "z = (classInfo, superClasses)" by (cases z)
      show ?thesis
      proof (cases "hasColor classInfo")
        case True
        with Inr y Some z l1 show ?thesis
          by (subst parseDefinition.simps) (simp add: Let_def)
      next
        case False
        from "1.IH" [OF Inr [unfolded y] Some z [symmetric] False] l1
        have "(case parseDefinition cl
                 (p1\<lparr>m_baseClasses := (m_baseClasses p1)(m_name classInfo \<mapsto> classInfo)\<rparr>) of
            Inl (_, p') \<Rightarrow> liveDefinitions p' = liveDefinitions p
          | Inr (None, p') \<Rightarrow> liveDefinitions p' = liveDefinitions p
          | Inr (Some _, p') \<Rightarrow> liveDefinitions p' = liveDefinitions p + 1)"
          by (auto split: sum.splits option.splits)
        with Inr y Some z False show ?thesis
          by (subst parseDefinition.simps) simp
      qed
    qed
  qed
qed

lemma doParseDefinitionsLoop_accumulated:
  "doParseDefinitionsLoop cl (ds0 @ ds) p =
     (case doParseDefinitionsLoop cl ds p of
        Inl (e, p') \<Rightarrow> Inl (e, p'\<lparr>liveDefinitions := liveDefinitions p' - length ds0\<rparr>)
      | Inr (r, p') \<Rightarrow> Inr (ds0 @ r, p'))"
proof (induction cl ds p rule: doParseDefinitionsLoop.induct)
  case (1 cl ds p)
  show ?case
  proof (cases "parseDefinition cl p")
    case (Inl x)
    obtain e q where "x = (e, q)" by (cases x)
    with Inl show ?thesis
      by (subst doParseDefinitionsLoop.simps, subst (2) doParseDefinitionsLoop.simps)
        (simp add: vec_clear_and_delete_def add.commute)
  next
    case (Inr y)
    obtain r p1 where y: "y = (r, p1)" by (cases y)
    show ?thesis
    proof (cases r)
      case None
      with Inr y show ?thesis
        by (subst doParseDefinitionsLoop.simps, subst (2) doParseDefinitionsLoop.simps)
          (simp add: Let_def)
    next
      case (Some d)
      from "1.IH" [OF Inr [unfolded y] refl refl Some]
      have "doParseDefinitionsLoop cl (ds0 @ ds @ [d]) (reportProgress p1) =
        (case doParseDefinitionsLoop cl (ds @ [d]) (reportProgress p1) of
           Inl (e, p') \<Rightarrow> Inl (e, p'\<lparr>liveDefinitions := liveDefinitions p' - length ds0\<rparr>)
         | Inr (r, p') \<Rightarrow> Inr (ds0 @ r, p'))"
        by simp
      with Inr y Some show ?thesis
        by (subst doParseDefinitionsLoop.simps, subst (2) doParseDefinitionsLoop.simps)
          (simp add: Let_def)
    qed
  qed
qed

lemma doParseDefinitions_unfold:
  "doParseDefinitions cl p =
     (case parseDefinition cl p of
        Inl (e, p') \<Rightarrow> Inl (e, p')
      | Inr (None, p') \<Rightarrow> Inr ([], reportProgress p')
      | Inr (Some d, p') \<Rightarrow>
          (case doParseDefinitions cl (reportProgress p') of
             Inl (e, p'') \<Rightarrow> Inl (e, p''\<lparr>liveDefinitions := liveDefinitions p'' - 1\<rparr>)
           | Inr (ds, p'') \<Rightarrow> Inr (d # ds, p'')))"
proof -
  have "doParseDefinitionsLoop cl [d] q =
      (case doParseDefinitionsLoop cl [] q of
         Inl (e, p') \<Rightarrow> Inl (e, p'\<lparr>liveDefinitions := liveDefinitions p' - 1\<rparr>)
       | Inr (r, p') \<Rightarrow> Inr (d # r, p'))" for d q
    using doParseDefinitionsLoop_accumulated [where cl = cl and ?ds0.0 = "[d]" and ds = "[]" and p = q]
    by (auto split: sum.splits)
  then show ?thesis
    unfolding doParseDefinitions_def
    by (subst doParseDefinitionsLoop.simps)
      (auto simp: vec_clear_and_delete_def Let_def split: sum.splits option.splits)
qed

lemma liveDefinitions_doParseDefinitionsLoop:
  "(case doParseDefinitionsLoop cl ds p of
      Inl (_, p') \<Rightarrow> liveDefinitions p' = liveDefinitions p - length ds
    | Inr (r, p') \<Rightarrow> liveDefinitions p' = liveDefinitions p + (length r - length ds) \<and>
                     length ds \<le> length r)"
proof (induction cl ds p rule: doParseDefinitionsLoop.induct)
  case (1 cl ds p)
  note l = liveDefinitions_parseDefinition [where cl = cl and p = p]
  show ?case
  proof (cases "parseDefinition cl p")
    case (Inl x)
    with l show ?thesis
      by (subst doParseDefinitionsLoop.simps) (auto simp: vec_clear_and_delete_def)
  next
    case (Inr y)
    obtain r p1 where y: "y = (r, p1)" by (cases y)
    show ?thesis
    proof (cases r)
      case None
      with Inr y l show ?thesis
        by (subst doParseDefinitionsLoop.simps) (simp add: Let_def reportProgress_def)
    next
      case (Some d)
      with Inr y l have l1: "liveDefinitions (reportProgress p1) = liveDefinitions p + 1"
        by (simp add: reportProgress_def)
      from "1.IH" [OF Inr [unfolded y] refl refl Some] l1 Inr y Some show ?thesis
        by (subst doParseDefinitionsLoop.simps) (auto simp: Let_def split: sum.splits)
    qed
  qed
qed

lemma parseSpawnflagsLoop_tokens:
  "spawnflagTokens toks t t' \<Longrightarrow>
   parseSpawnflagsLoop n options t = Inr (options @ spawnflagOptions n toks, t')"
proof (induction toks arbitrary: n options t)
  case Nil
  then show ?case
    by (subst parseSpawnflagsLoop.simps) (auto simp: peekToken_def split: sum.splits)
next
  case (Cons tok toks)
  from Cons.prems obtain t1 where
    h: "hasType tok [Word, Minus]" and n: "nextToken t = Inr (tok, t1)" and
    r: "spawnflagTokens toks t1 t'"
    by (auto split: sum.splits)
  from Cons.IH [OF r] h n show ?case
    by (subst parseSpawnflagsLoop.simps) (simp add: peekToken_def Let_def)
qed

lemma length_spawnflagOptions [simp]: "length (spawnflagOptions n toks) = length toks"
  by (induction toks arbitrary: n) simp_all

lemma nth_spawnflagOptions:
  "i < length toks \<Longrightarrow>
   spawnflagOptions n toks ! i =
     \<lparr>flagValue = sint (push_bit (n + i) (1 :: 32 word)),
      shortDescription = (if hasType (toks ! i) [Word] then tdata (toks ! i) else []),
      longDescription = [], isDefault = False\<rparr>"
proof (induction toks arbitrary: n i)
  case Nil
  then show ?case by simp
next
  case (Cons tok toks)
  then show ?case by (cases i) simp_all
qed

lemma sint_shift_one: "i < 31 \<Longrightarrow> sint (push_bit i (1 :: 32 word)) = 2 ^ i"
proof -
  assume i: "i < 31"
  have "(2::int) ^ i < 2 ^ 31"
    using i by (intro power_strict_increasing) simp_all
  moreover have "- ((2::int) ^ 31) \<le> 2 ^ i"
    by (rule order.trans [of _ 0]) simp_all
  ultimately have "signed_take_bit 31 ((2::int) ^ i) = 2 ^ i"
    by (intro signed_take_bit_int_eq_self) simp_all
  moreover have "sint (push_bit i (1 :: 32 word)) =
      signed_take_bit (LENGTH(32) - Suc 0) (push_bit i (sint (1 :: 32 word)))"
    by (rule signed_push_bit_eq)
  ultimately show ?thesis
    by (simp add: push_bit_of_1)
qed

lemma sint_power_two: "i < 31 \<Longrightarrow> sint (2 ^ i :: 32 word) = 2 ^ i"
  using sint_shift_one [of i] by (simp add: push_bit_of_1)

text \<open>A check of the token a scanner call returns, seen from the scanner.\<close>

lemma expect_onTokenizer:
  "expect typeMask (onTokenizer f p) =
     (case expect typeMask (f (m_tokenizer p)) of
        Inl (e, t) \<Rightarrow> Inl (e, p\<lparr>m_tokenizer := t\<rparr>)
      | Inr (a, t) \<Rightarrow> Inr (a, p\<lparr>m_tokenizer := t\<rparr>))"
  by (auto simp: expect_def onTokenizer_def andThen_def split: sum.splits)

text \<open>The registry changes only where a declaration without a colour is stored.\<close>

lemma keepsBaseClasses_andThen:
  assumes "keepsBaseClasses p r" and "\<And>a s. r = Inr (a, s) \<Longrightarrow> keepsBaseClasses s (f a s)"
  shows "keepsBaseClasses p (andThen r f)"
proof (cases r)
  case (Inl x)
  with assms(1) show ?thesis by (simp add: keepsBaseClasses_def)
next
  case (Inr y)
  obtain a s where y: "y = (a, s)" by (cases y)
  with Inr assms(1) have "m_baseClasses s = m_baseClasses p" by (simp add: keepsBaseClasses_def)
  moreover from assms(2) [of a s] Inr y have "keepsBaseClasses s (f a s)" by simp
  ultimately show ?thesis using Inr y by (auto simp: keepsBaseClasses_def split: sum.splits)
qed

lemma keepsBaseClasses_Inr [simp]: "keepsBaseClasses p (Inr (a, p)) "
  by (simp add: keepsBaseClasses_def)

lemma keepsBaseClasses_expect: "keepsBaseClasses p r \<Longrightarrow> keepsBaseClasses p (expect typeMask r)"
  unfolding expect_def by (rule keepsBaseClasses_andThen) (auto simp: keepsBaseClasses_def)

lemma keepsBaseClasses_onTokenizer: "keepsBaseClasses p (onTokenizer f p)"
  by (auto simp: keepsBaseClasses_def onTokenizer_def split: sum.splits)

lemma keepsBaseClasses_tokenizer [simp]: "keepsBaseClasses (p\<lparr>m_tokenizer := t\<rparr>) r = keepsBaseClasses p r"
  by (auto simp: keepsBaseClasses_def split: sum.splits)

lemma keepsBaseClasses_parseModel_modern: "keepsBaseClasses p (parseModel_modern cl p)"
  unfolding parseModel_modern_def
  by (intro keepsBaseClasses_andThen keepsBaseClasses_expect keepsBaseClasses_onTokenizer)
    (auto simp: keepsBaseClasses_def ELParser_parse_def split: sum.splits)

lemma keepsBaseClasses_parseModel_legacy: "keepsBaseClasses p (parseModel_legacy cl line column p)"
  unfolding parseModel_legacy_def
  by (intro keepsBaseClasses_andThen keepsBaseClasses_expect keepsBaseClasses_onTokenizer)
    (auto simp: keepsBaseClasses_def LegacyModelDefinitionParser_parse_def Let_def
      split: sum.splits prod.splits)

lemma keepsBaseClasses_parseModel: "keepsBaseClasses p (parseModel cl p)"
  unfolding parseModel_def
proof (rule keepsBaseClasses_andThen)
  show "keepsBaseClasses p (expect [OParenthesis] (onTokenizer nextToken p))"
    by (intro keepsBaseClasses_expect keepsBaseClasses_onTokenizer)
next
  fix a s
  have m: "keepsBaseClasses s (parseModel_modern cl s)" by (rule keepsBaseClasses_parseModel_modern)
  show "keepsBaseClasses s
        (let snapshot = m_tokenizer s; line = m_line (m_tokenizer s);
             column = m_column (m_tokenizer s)
         in case parseModel_modern cl s of
              Inl (e, p) \<Rightarrow>
                (case parseModel_legacy cl line column (p\<lparr>m_tokenizer := snapshot\<rparr>) of
                   Inl (_, p) \<Rightarrow> Inl (e, p\<lparr>m_tokenizer := snapshot\<rparr>)
                 | Inr r \<Rightarrow> Inr r)
            | Inr r \<Rightarrow> Inr r)"
  proof (cases "parseModel_modern cl s")
    case (Inr r)
    with m show ?thesis by (simp add: keepsBaseClasses_def Let_def)
  next
    case (Inl x)
    obtain e p1 where x: "x = (e, p1)" by (cases x)
    from m Inl x have l1: "m_baseClasses p1 = m_baseClasses s" by (simp add: keepsBaseClasses_def)
    have "keepsBaseClasses (p1\<lparr>m_tokenizer := m_tokenizer s\<rparr>)
        (parseModel_legacy cl (m_line (m_tokenizer s)) (m_column (m_tokenizer s))
           (p1\<lparr>m_tokenizer := m_tokenizer s\<rparr>))"
      by (rule keepsBaseClasses_parseModel_legacy)
    with l1 Inl x show ?thesis
      by (auto simp: keepsBaseClasses_def Let_def split: sum.splits)
  qed
qed

lemma keepsBaseClasses_parseAttribute: "keepsBaseClasses p (parseAttribute cl classInfo superClasses p)"
  unfolding parseAttribute_def Let_def
  by (intro keepsBaseClasses_andThen keepsBaseClasses_expect keepsBaseClasses_onTokenizer)
    (auto intro!: keepsBaseClasses_andThen keepsBaseClasses_expect keepsBaseClasses_onTokenizer keepsBaseClasses_parseModel)

lemma keepsBaseClasses_parseAttributesLoop:
  "keepsBaseClasses p (parseAttributesLoop cl classInfo superClasses p)"
proof (induction cl classInfo superClasses p rule: parseAttributesLoop.induct)
  case (1 cl classInfo superClasses p)
  show ?case
    by (subst parseAttributesLoop.simps)
      (auto intro!: keepsBaseClasses_andThen keepsBaseClasses_parseAttribute "1.IH")
qed

lemma keepsBaseClasses_parseAttributes: "keepsBaseClasses p (parseAttributes cl classInfo superClasses p)"
  unfolding parseAttributes_def
  by (auto intro!: keepsBaseClasses_andThen keepsBaseClasses_onTokenizer keepsBaseClasses_parseAttributesLoop)

lemma keepsBaseClasses_parseDefinition_classInfo: "keepsBaseClasses p (parseDefinition_classInfo cl p)"
  unfolding parseDefinition_classInfo_def Let_def
  by (auto intro!: keepsBaseClasses_andThen keepsBaseClasses_expect keepsBaseClasses_onTokenizer
      keepsBaseClasses_parseAttributes)


lemma m_baseClasses_parseDefinition:
  "parseDefinition cl q = Inr (r, q') \<Longrightarrow>
     m_baseClasses q' n = m_baseClasses q n \<or>
     (\<exists>stored. m_baseClasses q' n = Some stored \<and> \<not> hasColor stored \<and> m_name stored = n)"
proof (induction cl q rule: parseDefinition.induct)
  case (1 cl p)
  note k = keepsBaseClasses_parseDefinition_classInfo [where cl = cl and p = p]
  from "1.prems" obtain y where Inr: "parseDefinition_classInfo cl p = Inr y"
    by (subst (asm) parseDefinition.simps) (auto simp: andThen_Inr)
  obtain c p1 where y: "y = (c, p1)" by (cases y)
  from k Inr y have l1: "m_baseClasses p1 = m_baseClasses p" by (simp add: keepsBaseClasses_def)
  show ?case
  proof (cases c)
    case None
    with Inr y l1 "1.prems" show ?thesis by (subst (asm) parseDefinition.simps) auto
  next
    case (Some z)
    obtain classInfo superClasses where z: "z = (classInfo, superClasses)" by (cases z)
    show ?thesis
    proof (cases "hasColor classInfo")
      case True
      with Inr y Some z l1 "1.prems" show ?thesis
        by (subst (asm) parseDefinition.simps) (auto simp: Let_def split: if_splits)
    next
      case False
      from "1.prems" Inr y Some z False
      have "parseDefinition cl
              (p1\<lparr>m_baseClasses := (m_baseClasses p1)(m_name classInfo \<mapsto> classInfo)\<rparr>) =
            Inr (r, q')"
        by (subst (asm) parseDefinition.simps) simp
      from "1.IH" [OF Inr [unfolded y] Some z [symmetric] False this] l1 False
      show ?thesis by (auto split: if_splits)
    qed
  qed
qed

text \<open>The header of a declaration from the colour on.\<close>

lemma parseDefinition_header_after_color:
  assumes "peekToken t = Inr (po, t)" and "ttype po = OParenthesis"
    and "parseColor t = Inr (c, t1)"
    and "nextToken t1 = Inr (tok, t2)"
  shows "(ttype tok \<notin> {OParenthesis, Word} \<longrightarrow>
            parseDefinition_header classInfo t =
              Inl (ParserException (tline tok) (tcolumn tok)
                     (expectString (tokenName [OParenthesis, Word]) tok), t1)) \<and>
         (ttype tok = Word \<and> tdata tok = ''?'' \<and>
            (\<exists>nl t3. nextToken t2 = Inr (nl, t3) \<and> ttype nl = Newline) \<longrightarrow>
            parseDefinition_header classInfo t = Inr (setColor c classInfo, t2))"
  using assms
  by (auto simp: parseDefinition_header_def expect_def hasType_def peekToken_def Let_def)

lemma twoBlocks_first:
  "parseDefinition_classInfo exampleCollaborators (DefParser twoBlocks white) =
     Inr (Some (\<lparr>m_name = ''base_item'', m_color = None, m_size = None, m_attributes = [],
                  m_description = [], m_modelDefinition = Some ''{x}''\<rparr>, []),
          (DefParser twoBlocks white)
            \<lparr>m_tokenizer := \<lparr>m_cur = drop 36 twoBlocks, m_offs = 36, m_line = 3, m_column = 2\<rparr>\<rparr>)"
  by (simp add: twoBlocks_def parser_defs)

section \<open>The claims\<close>

subsection \<open>Model clauses\<close>

text \<open>
  C1. After the opening parenthesis of a model clause the modern grammar runs first: where
  it succeeds and the closing parenthesis follows, the result is its expression,
  optimized, and the status is as it was: the legacy grammar has not run. Where the modern
  attempt fails, in the grammar or at the closing parenthesis, and the legacy grammar,
  run from the snapshot, succeeds up to the closing parenthesis, the parse succeeds with
  the optimized expression and adds exactly one warning to the status the legacy parser
  left. The warning carries the line and column of the snapshot and the message
  \<^verbatim>\<open>Legacy model expressions are deprecated, replace with '...'\<close>, which quotes the
  optimized expression as the replacement and so is never empty. Where the legacy attempt
  fails too, in the grammar or at the closing parenthesis, the exception is the one of
  the modern attempt and the scanner is back at the snapshot.
\<close>

theorem parseModel_speculative:
  assumes "expect [OParenthesis] (nextToken (m_tokenizer p)) = Inr (po, t0)"
  shows "(\<forall>expression n pc t2.
            elParse cl t0 = Inr (expression, n) \<and>
            expect [CParenthesis] (nextToken (advanceN n t0)) = Inr (pc, t2) \<longrightarrow>
            parseModel cl p = Inr (optimize cl expression, p\<lparr>m_tokenizer := t2\<rparr>)) \<and>
         (\<forall>e. (elParse cl t0 = Inl e \<or>
               (\<exists>expression n t2.
                  elParse cl t0 = Inr (expression, n) \<and>
                  expect [CParenthesis] (nextToken (advanceN n t0)) = Inl (e, t2))) \<longrightarrow>
            (\<forall>expression n s pc t3.
               legacyParse cl t0 (status p) = (Inr (expression, n), s) \<and>
               expect [CParenthesis] (nextToken (advanceN n t0)) = Inr (pc, t3) \<longrightarrow>
               parseModel cl p =
                 Inr (optimize cl expression,
                      p\<lparr>m_tokenizer := t3,
                        status := s\<lparr>warnings := warnings s @
                          [(m_line t0, m_column t0,
                            ''Legacy model expressions are deprecated, replace with '' @
                            [CHR 0x27] @ asString cl (optimize cl expression) @
                            [CHR 0x27])]\<rparr>\<rparr>)) \<and>
            (\<forall>e' s.
               (legacyParse cl t0 (status p) = (Inl e', s) \<or>
                (\<exists>expression n t3.
                   legacyParse cl t0 (status p) = (Inr (expression, n), s) \<and>
                   expect [CParenthesis] (nextToken (advanceN n t0)) = Inl (e', t3))) \<longrightarrow>
               parseModel cl p = Inl (e, p\<lparr>m_tokenizer := t0, status := s\<rparr>)))"
  using assms
  by (auto simp: parseModel_def parseModel_modern_def parseModel_legacy_def ELParser_parse_def
      LegacyModelDefinitionParser_parse_def expect_onTokenizer Let_def warn_def
      legacyWarning_def)

theorem parseModel_speculative_witness:
  "parseModel exampleCollaborators (DefParser (''('' @ quoted ''x.mdl'' @ '');'') white) =
     Inr (quoted ''x.mdl'',
          (DefParser (''('' @ quoted ''x.mdl'' @ '');'') white)
            \<lparr>m_tokenizer := \<lparr>m_cur = '';'', m_offs = 9, m_line = 1, m_column = 10\<rparr>,
             status :=
               \<lparr>warnings =
                  [(1, 2, ''Legacy model expressions are deprecated, replace with '' @
                          [CHR 0x27] @ quoted ''x.mdl'' @ [CHR 0x27])],
                progressReports = []\<rparr>\<rparr>)"
proof -
  define p :: "string DefParser" where "p = DefParser (''('' @ quoted ''x.mdl'' @ '');'') white"
  define t0 where "t0 = \<lparr>m_cur = quoted ''x.mdl'' @ '');'', m_offs = 1, m_line = 1, m_column = 2\<rparr>"
  have 1: "expect [OParenthesis] (nextToken (m_tokenizer p)) =
      Inr (\<lparr>ttype = OParenthesis, tdata = ''('', toffset = 0, tline = 1, tcolumn = 1\<rparr>, t0)"
    by (simp add: p_def t0_def DefParser_def quoted_def expect_def hasType_def
        emitToken.simps advanceWhile.simps tokenizer_defs Let_def)
  have 2: "elParse exampleCollaborators t0 = Inl (ParserException 1 2 ''modern grammar'')"
    by (simp add: exampleCollaborators_def t0_def quoted_def curChar_def)
  have 3: "legacyParse exampleCollaborators t0 (status p) = (Inr (quoted ''x.mdl'', 7), status p)"
    by (simp add: exampleCollaborators_def t0_def quoted_def curChar_def exampleExpression_def)
  have 4: "expect [CParenthesis] (nextToken (advanceN 7 t0)) =
      Inr (\<lparr>ttype = CParenthesis, tdata = '')'', toffset = 8, tline = 1, tcolumn = 9\<rparr>,
           \<lparr>m_cur = '';'', m_offs = 9, m_line = 1, m_column = 10\<rparr>)"
    by (simp add: t0_def quoted_def eval_nat_numeral expect_def hasType_def
        emitToken.simps advanceWhile.simps tokenizer_defs Let_def)
  have 5: "optimize exampleCollaborators = (\<lambda>e. e)" "asString exampleCollaborators = (\<lambda>e. e)"
    by (simp_all add: exampleCollaborators_def)
  have 6: "status p = \<lparr>warnings = [], progressReports = []\<rparr>"
    by (simp add: p_def DefParser_def)
  from parseModel_speculative [OF 1, of exampleCollaborators, THEN conjunct2, rule_format,
      OF disjI1 [OF 2], THEN conjunct1, rule_format, OF conjI [OF 3 4]]
  have "parseModel exampleCollaborators p =
     Inr (quoted ''x.mdl'',
          p\<lparr>m_tokenizer := \<lparr>m_cur = '';'', m_offs = 9, m_line = 1, m_column = 10\<rparr>,
            status :=
               \<lparr>warnings =
                  [(1, 2, ''Legacy model expressions are deprecated, replace with '' @
                          [CHR 0x27] @ quoted ''x.mdl'' @ [CHR 0x27])],
                progressReports = []\<rparr>\<rparr>)"
    by (simp add: 5 6 t0_def)
  then show ?thesis
    unfolding p_def .
qed

lemma parseModel_modern_example:
  "parseModel exampleCollaborators (DefParser ''({x});'' white) =
     Inr (''{x}'',
          (DefParser ''({x});'' white)
            \<lparr>m_tokenizer := \<lparr>m_cur = '';'', m_offs = 5, m_line = 1, m_column = 6\<rparr>\<rparr>)"
  by (simp add: parseModel_def parseModel_modern_def parseModel_legacy_def ELParser_parse_def
      LegacyModelDefinitionParser_parse_def exampleCollaborators_def exampleExpression_def
      DefParser_def onTokenizer_def expect_def hasType_def emitToken.simps advanceWhile.simps
      tokenizer_defs eval_nat_numeral Let_def)

lemma parseModel_both_fail_example:
  "parseModel exampleCollaborators (DefParser ''(x.mdl);'' white) =
     Inl (ParserException 1 2 ''modern grammar'',
          (DefParser ''(x.mdl);'' white)
            \<lparr>m_tokenizer := \<lparr>m_cur = ''x.mdl);'', m_offs = 1, m_line = 1, m_column = 2\<rparr>\<rparr>)"
  by (simp add: parseModel_def parseModel_modern_def parseModel_legacy_def ELParser_parse_def
      LegacyModelDefinitionParser_parse_def exampleCollaborators_def DefParser_def
      onTokenizer_def expect_def hasType_def emitToken.simps advanceWhile.simps tokenizer_defs
      Let_def)

subsection \<open>Base classes\<close>

text \<open>
  C2. A declaration without a colour gives no descriptor: it is stored in the registry of
  base classes under its name, in place of any entry the name had and with the other
  entries as they were, no descriptor is created, and the descriptor returned, like the
  list of all descriptors, is that of the declarations after it, parsed with the new
  registry. A later declaration finds the stored entry: a declaration with a colour
  becomes a descriptor of its class information resolved against the registry as it
  stands when the declaration is read, so the declaration that follows the stored one is
  resolved against the registry that holds the entry, and a declaration that names the
  stored class as its base inherits from the stored entry. The entry stays in the registry
  through every later declaration, until a declaration without a colour and of the same
  name replaces it.
\<close>

theorem parseDefinition_base_class:
  assumes "parseDefinition_classInfo cl p = Inr (Some (classInfo, superClasses), p1)"
    and "\<not> hasColor classInfo"
  shows "parseDefinition cl p =
           parseDefinition cl
             (p1\<lparr>m_baseClasses := (m_baseClasses p)(m_name classInfo \<mapsto> classInfo)\<rparr>) \<and>
         doParseDefinitions cl p =
           doParseDefinitions cl
             (p1\<lparr>m_baseClasses := (m_baseClasses p)(m_name classInfo \<mapsto> classInfo)\<rparr>) \<and>
         liveDefinitions p1 = liveDefinitions p \<and>
         (\<forall>later laterSuperClasses p2.
            parseDefinition_classInfo cl
              (p1\<lparr>m_baseClasses := (m_baseClasses p)(m_name classInfo \<mapsto> classInfo)\<rparr>) =
              Inr (Some (later, laterSuperClasses), p2) \<and>
            hasColor later \<longrightarrow>
            parseDefinition cl p =
              Inr (Some
                     (let resolved =
                            resolveBaseClasses ((m_baseClasses p)(m_name classInfo \<mapsto> classInfo))
                              laterSuperClasses later
                      in if hasSize resolved
                         then PointEntityDefinition (m_name resolved) (color resolved)
                                (sizeBounds resolved) (m_description resolved)
                                (m_attributes resolved) (m_modelDefinition resolved)
                         else BrushEntityDefinition (m_name resolved)
                                (if hasColor resolved then color resolved
                                 else m_defaultEntityColor p2)
                                (m_description resolved) (m_attributes resolved)),
                   p2\<lparr>liveDefinitions := liveDefinitions p + 1\<rparr>)) \<and>
         (\<forall>q later laterSuperClasses q2.
            parseDefinition_classInfo cl q = Inr (Some (later, laterSuperClasses), q2) \<and>
            hasColor later \<longrightarrow>
            parseDefinition cl q =
              Inr (Some
                     (let resolved = resolveBaseClasses (m_baseClasses q) laterSuperClasses later
                      in if hasSize resolved
                         then PointEntityDefinition (m_name resolved) (color resolved)
                                (sizeBounds resolved) (m_description resolved)
                                (m_attributes resolved) (m_modelDefinition resolved)
                         else BrushEntityDefinition (m_name resolved)
                                (if hasColor resolved then color resolved
                                 else m_defaultEntityColor q2)
                                (m_description resolved) (m_attributes resolved)),
                   q2\<lparr>liveDefinitions := liveDefinitions q + 1\<rparr>)) \<and>
         (\<forall>baseClasses later.
            baseClasses (m_name classInfo) = Some classInfo \<longrightarrow>
            resolveBaseClasses baseClasses [m_name classInfo] later =
              inheritFrom classInfo later) \<and>
         (\<forall>q r q'.
            m_baseClasses q (m_name classInfo) = Some classInfo \<and>
            parseDefinition cl q = Inr (r, q') \<longrightarrow>
            (\<exists>stored. m_baseClasses q' (m_name classInfo) = Some stored \<and>
               (stored = classInfo \<or>
                \<not> hasColor stored \<and> m_name stored = m_name classInfo)))"
proof -
  have b1: "m_baseClasses p1 = m_baseClasses p"
    using keepsBaseClasses_parseDefinition_classInfo [where cl = cl and p = p] assms(1)
    by (simp add: keepsBaseClasses_def)
  have 1: "parseDefinition cl p =
           parseDefinition cl
             (p1\<lparr>m_baseClasses := (m_baseClasses p)(m_name classInfo \<mapsto> classInfo)\<rparr>)"
    using assms b1 by (subst parseDefinition.simps) simp
  have 2: "doParseDefinitions cl p =
           doParseDefinitions cl
             (p1\<lparr>m_baseClasses := (m_baseClasses p)(m_name classInfo \<mapsto> classInfo)\<rparr>)"
    unfolding doParseDefinitions_def
    by (subst doParseDefinitionsLoop.simps, subst (2) doParseDefinitionsLoop.simps)
      (simp only: 1)
  have 3: "liveDefinitions p1 = liveDefinitions p"
    using keepsLive_parseDefinition_classInfo [where cl = cl and p = p] assms(1)
    by (simp add: keepsLive_def)
  have 5: "parseDefinition cl q =
              Inr (Some
                     (let resolved = resolveBaseClasses (m_baseClasses q) laterSuperClasses later
                      in if hasSize resolved
                         then PointEntityDefinition (m_name resolved) (color resolved)
                                (sizeBounds resolved) (m_description resolved)
                                (m_attributes resolved) (m_modelDefinition resolved)
                         else BrushEntityDefinition (m_name resolved)
                                (if hasColor resolved then color resolved
                                 else m_defaultEntityColor q2)
                                (m_description resolved) (m_attributes resolved)),
                   q2\<lparr>liveDefinitions := liveDefinitions q + 1\<rparr>)"
    if c: "parseDefinition_classInfo cl q = Inr (Some (later, laterSuperClasses), q2)"
      and h: "hasColor later" for q later laterSuperClasses q2
  proof -
    have "m_baseClasses q2 = m_baseClasses q"
      using keepsBaseClasses_parseDefinition_classInfo [where cl = cl and p = q] c
      by (simp add: keepsBaseClasses_def)
    moreover have "liveDefinitions q2 = liveDefinitions q"
      using keepsLive_parseDefinition_classInfo [where cl = cl and p = q] c
      by (simp add: keepsLive_def)
    ultimately show ?thesis
      using c h by (subst parseDefinition.simps) (simp add: Let_def)
  qed
  have 4: "parseDefinition cl p =
              Inr (Some
                     (let resolved =
                            resolveBaseClasses ((m_baseClasses p)(m_name classInfo \<mapsto> classInfo))
                              laterSuperClasses later
                      in if hasSize resolved
                         then PointEntityDefinition (m_name resolved) (color resolved)
                                (sizeBounds resolved) (m_description resolved)
                                (m_attributes resolved) (m_modelDefinition resolved)
                         else BrushEntityDefinition (m_name resolved)
                                (if hasColor resolved then color resolved
                                 else m_defaultEntityColor p2)
                                (m_description resolved) (m_attributes resolved)),
                   p2\<lparr>liveDefinitions := liveDefinitions p + 1\<rparr>)"
    if c: "parseDefinition_classInfo cl
              (p1\<lparr>m_baseClasses := (m_baseClasses p)(m_name classInfo \<mapsto> classInfo)\<rparr>) =
              Inr (Some (later, laterSuperClasses), p2)"
      and h: "hasColor later" for later laterSuperClasses p2
    using 5 [OF c h] 3 by (simp add: 1)
  have 6: "resolveBaseClasses baseClasses [m_name classInfo] later = inheritFrom classInfo later"
    if "baseClasses (m_name classInfo) = Some classInfo" for baseClasses later
    using that by simp
  have 7: "\<exists>stored. m_baseClasses q' (m_name classInfo) = Some stored \<and>
               (stored = classInfo \<or> \<not> hasColor stored \<and> m_name stored = m_name classInfo)"
    if "m_baseClasses q (m_name classInfo) = Some classInfo"
      and "parseDefinition cl q = Inr (r, q')" for q r q'
    using m_baseClasses_parseDefinition [OF that(2), of "m_name classInfo"] that(1) by auto
  from 1 2 3 4 5 6 7 show ?thesis by blast
qed

theorem parseDefinition_base_class_witness:
  "parseDefinition exampleCollaborators (DefParser twoBlocks white) =
     Inr (Some (PointEntityDefinition ''item_weapon''
                  [Finite32 0, Finite32 0, Finite32 1, Finite32 1]
                  \<lparr>bbox_min = [- 16, - 16, 0], bbox_max = [16, 16, 32]\<rparr> [] [] (Some ''{x}'')),
          (DefParser twoBlocks white)
            \<lparr>m_tokenizer := \<lparr>m_cur = ''/'', m_offs = 114, m_line = 6, m_column = 2\<rparr>,
             m_baseClasses :=
               [''base_item'' \<mapsto>
                  \<lparr>m_name = ''base_item'', m_color = None, m_size = None, m_attributes = [],
                   m_description = [], m_modelDefinition = Some ''{x}''\<rparr>],
             liveDefinitions := 1\<rparr>)"
proof -
  define base :: "string EntityDefinitionClassInfo" where
    "base = \<lparr>m_name = ''base_item'', m_color = None, m_size = None, m_attributes = [],
             m_description = [], m_modelDefinition = Some ''{x}''\<rparr>"
  define later :: "string EntityDefinitionClassInfo" where
    "later = \<lparr>m_name = ''item_weapon'',
              m_color = Some [Finite32 0, Finite32 0, Finite32 1, Finite32 1],
              m_size = Some \<lparr>bbox_min = [- 16, - 16, 0], bbox_max = [16, 16, 32]\<rparr>,
              m_attributes = [], m_description = [], m_modelDefinition = None\<rparr>"
  have 1: "parseDefinition_classInfo exampleCollaborators (DefParser twoBlocks white) =
      Inr (Some (base, []),
           (DefParser twoBlocks white)
             \<lparr>m_tokenizer := \<lparr>m_cur = drop 36 twoBlocks, m_offs = 36, m_line = 3, m_column = 2\<rparr>\<rparr>)"
    unfolding base_def by (rule twoBlocks_first)
  have 2: "\<not> hasColor base"
    by (simp add: base_def hasColor_def)
  have vals: "toFloat32 ''0'' = Finite32 0" "toFloat32 ''1'' = Finite32 1"
    "toFloat ''-16'' = - 16" "toFloat ''0'' = 0" "toFloat ''16'' = 16" "toFloat ''32'' = 32"
    by code_simp+
  have 3: "parseDefinition_classInfo exampleCollaborators
         ((DefParser twoBlocks white)
            \<lparr>m_tokenizer := \<lparr>m_cur = drop 36 twoBlocks, m_offs = 36, m_line = 3, m_column = 2\<rparr>,
             m_baseClasses :=
               (m_baseClasses (DefParser twoBlocks white))(m_name base \<mapsto> base)\<rparr>) =
      Inr (Some (later, [''base_item'']),
           (DefParser twoBlocks white)
            \<lparr>m_tokenizer := \<lparr>m_cur = ''/'', m_offs = 114, m_line = 6, m_column = 2\<rparr>,
             m_baseClasses :=
               (m_baseClasses (DefParser twoBlocks white))(m_name base \<mapsto> base)\<rparr>)"
    by (simp add: twoBlocks_def parser_defs later_def base_def vals parseColor_def
        parseColorLoop.simps parseBounds_def parseVector_def parseVectorLoop.simps repair_def
        parseBaseAttribute_def setColor_def setSize_def white_def)
  have 4: "hasColor later"
    by (simp add: later_def hasColor_def)
  from parseDefinition_base_class [OF 1 2, THEN conjunct2, THEN conjunct2, THEN conjunct2,
      THEN conjunct1, rule_format, OF conjI [OF 3 4]]
  show ?thesis
    by (simp add: later_def base_def DefParser_def hasSize_def hasColor_def color_def
        sizeBounds_def inheritFrom_def Let_def)
qed

lemma base_class_redeclared_example:
  "outcome (doParseDefinitions exampleCollaborators
     (DefParser
        (''/*QUAKED base_item'' @ newline @ ''{ model({x}); }'' @ newline @ ''*/'' @ newline @
         ''/*QUAKED base_item'' @ newline @ ''{ model({y}); }'' @ newline @ ''*/'' @ newline @
         ''/*QUAKED item_weapon (0 0 1) (-16 -16 0) (16 16 32)'' @ newline @
         ''{ base('' @ quoted ''base_item'' @ ''); }'' @ newline @ ''*/'') white)) =
   Inr [PointEntityDefinition ''item_weapon'' [Finite32 0, Finite32 0, Finite32 1, Finite32 1]
          \<lparr>bbox_min = [- 16, - 16, 0], bbox_max = [16, 16, 32]\<rparr> [] [] (Some ''{y}'')]"
  by code_simp

subsection \<open>Spawnflags\<close>

text \<open>
  C3, as amended. For a spawnflags clause of \<open>k\<close> word-or-minus tokens, \<^verbatim>\<open>parseSpawnflags\<close>
  returns a flags attribute with \<open>k\<close> options in the order of the tokens. The \<open>i\<close>-th option
  (from 0) with \<open>i < 31\<close> has the value \<open>2 ^ i\<close>, the value being a 32-bit signed integer, so
  that among the first 31 options the values strictly increase; its name is the text of
  the token for a word and empty for a minus, which takes up a bit position all the same.
  The clause is read only after a colour: a header that does not begin with an opening
  parenthesis, where it is accepted, consumes nothing and adds no attribute.
\<close>

theorem parseSpawnflags_values:
  "(spawnflagTokens toks t t' \<longrightarrow>
      (\<exists>options.
         parseSpawnflags t = Inr (FlagsAttributeDefinition Spawnflags options, t') \<and>
         length options = length toks \<and>
         (\<forall>i<length toks.
            shortDescription (options ! i) =
              (if ttype (toks ! i) = Word then tdata (toks ! i) else []) \<and>
            (i < 31 \<longrightarrow> flagValue (options ! i) = 2 ^ i)) \<and>
         (\<forall>i j. i < j \<and> j < length toks \<and> j < 31 \<longrightarrow>
            flagValue (options ! i) < flagValue (options ! j)))) \<and>
   ((case peekToken t0 of Inl _ \<Rightarrow> True | Inr (tok, _) \<Rightarrow> ttype tok \<noteq> OParenthesis) \<longrightarrow>
      parseDefinition_header classInfo t0 = Inr (r, t0') \<longrightarrow> r = classInfo \<and> t0' = t0)"
proof (intro conjI impI)
  assume h: "spawnflagTokens toks t t'"
  have p: "parseSpawnflags t = Inr (FlagsAttributeDefinition Spawnflags (spawnflagOptions 0 toks), t')"
    using parseSpawnflagsLoop_tokens [OF h, of 0 "[]"] by (simp add: parseSpawnflags_def)
  have v: "flagValue (spawnflagOptions 0 toks ! i) = sint (push_bit i (1 :: 32 word))"
    if "i < length toks" for i
    using that by (simp add: nth_spawnflagOptions)
  have n: "shortDescription (spawnflagOptions 0 toks ! i) =
      (if ttype (toks ! i) = Word then tdata (toks ! i) else [])" if "i < length toks" for i
    using that by (simp add: nth_spawnflagOptions hasType_def)
  have m: "flagValue (spawnflagOptions 0 toks ! i) < flagValue (spawnflagOptions 0 toks ! j)"
    if "i < j" "j < length toks" "j < 31" for i j
  proof -
    from that have "flagValue (spawnflagOptions 0 toks ! i) = 2 ^ i"
      "flagValue (spawnflagOptions 0 toks ! j) = 2 ^ j"
      by (simp_all add: v sint_power_two)
    with that(1) show ?thesis by simp
  qed
  show "\<exists>options.
         parseSpawnflags t = Inr (FlagsAttributeDefinition Spawnflags options, t') \<and>
         length options = length toks \<and>
         (\<forall>i<length toks.
            shortDescription (options ! i) =
              (if ttype (toks ! i) = Word then tdata (toks ! i) else []) \<and>
            (i < 31 \<longrightarrow> flagValue (options ! i) = 2 ^ i)) \<and>
         (\<forall>i j. i < j \<and> j < length toks \<and> j < 31 \<longrightarrow>
            flagValue (options ! i) < flagValue (options ! j))"
  proof (intro exI [of _ "spawnflagOptions 0 toks"] conjI allI impI)
    show "parseSpawnflags t = Inr (FlagsAttributeDefinition Spawnflags (spawnflagOptions 0 toks), t')"
      by (rule p)
    show "length (spawnflagOptions 0 toks) = length toks" by simp
  next
    fix i assume "i < length toks"
    then show "shortDescription (spawnflagOptions 0 toks ! i) =
        (if ttype (toks ! i) = Word then tdata (toks ! i) else [])"
      by (simp only: n)
    assume "i < 31"
    with \<open>i < length toks\<close> show "flagValue (spawnflagOptions 0 toks ! i) = 2 ^ i"
      by (simp only: v sint_shift_one)
  next
    fix i j assume "i < j \<and> j < length toks \<and> j < 31"
    then show "flagValue (spawnflagOptions 0 toks ! i) < flagValue (spawnflagOptions 0 toks ! j)"
      using m by blast
  qed
next
  assume "case peekToken t0 of Inl _ \<Rightarrow> True | Inr (tok, _) \<Rightarrow> ttype tok \<noteq> OParenthesis"
    and "parseDefinition_header classInfo t0 = Inr (r, t0')"
  then show "r = classInfo" and "t0' = t0"
    by (auto simp: parseDefinition_header_def expect_def andThen_def hasType_def peekToken_def
        split: sum.splits if_splits)
qed

theorem parseSpawnflags_values_witness:
  "(\<exists>options.
      parseSpawnflags (Tokenizer (''A - B'' @ newline)) =
        Inr (FlagsAttributeDefinition Spawnflags options,
             \<lparr>m_cur = newline, m_offs = 5, m_line = 1, m_column = 6\<rparr>) \<and>
      map shortDescription options = [''A'', [], ''B''] \<and>
      map flagValue options = [1, 2, 4]) \<and>
   parseDefinition_header (EntityDefinitionClassInfo :: string EntityDefinitionClassInfo)
     (Tokenizer (newline @ ''A - B'')) =
   Inr (EntityDefinitionClassInfo, Tokenizer (newline @ ''A - B''))"
proof
  define toks where "toks =
    [\<lparr>ttype = Word, tdata = ''A'', toffset = 0, tline = 1, tcolumn = 1\<rparr>,
     \<lparr>ttype = Minus, tdata = ''-'', toffset = 2, tline = 1, tcolumn = 3\<rparr>,
     \<lparr>ttype = Word, tdata = ''B'', toffset = 4, tline = 1, tcolumn = 5\<rparr>]"
  have h: "spawnflagTokens toks (Tokenizer (''A - B'' @ newline))
      \<lparr>m_cur = newline, m_offs = 5, m_line = 1, m_column = 6\<rparr>"
    unfolding toks_def by code_simp
  from parseSpawnflags_values [THEN conjunct1, rule_format, OF h]
  obtain options where
    p: "parseSpawnflags (Tokenizer (''A - B'' @ newline)) =
        Inr (FlagsAttributeDefinition Spawnflags options,
             \<lparr>m_cur = newline, m_offs = 5, m_line = 1, m_column = 6\<rparr>)" and
    l: "length options = length toks" and
    v: "\<forall>i<length toks.
            shortDescription (options ! i) =
              (if ttype (toks ! i) = Word then tdata (toks ! i) else []) \<and>
            (i < 31 \<longrightarrow> flagValue (options ! i) = 2 ^ i)"
    by blast
  from l obtain a b c where o: "options = [a, b, c]"
    by (auto simp: toks_def length_Suc_conv)
  from v [rule_format, of 0] v [rule_format, of 1] v [rule_format, of 2]
  have "map shortDescription options = [''A'', [], ''B'']" "map flagValue options = [1, 2, 4]"
    by (simp_all add: o toks_def)
  with p show "\<exists>options.
      parseSpawnflags (Tokenizer (''A - B'' @ newline)) =
        Inr (FlagsAttributeDefinition Spawnflags options,
             \<lparr>m_cur = newline, m_offs = 5, m_line = 1, m_column = 6\<rparr>) \<and>
      map shortDescription options = [''A'', [], ''B''] \<and>
      map flagValue options = [1, 2, 4]"
    by (intro exI [of _ options]) simp
next
  have 1: "case peekToken (Tokenizer (newline @ ''A - B'')) of
      Inl _ \<Rightarrow> True | Inr (tok, _) \<Rightarrow> ttype tok \<noteq> OParenthesis"
    by code_simp
  have 2: "outcome (parseDefinition_header
      (EntityDefinitionClassInfo :: string EntityDefinitionClassInfo)
      (Tokenizer (newline @ ''A - B''))) \<noteq> Inl e" for e
    by (simp add: parseDefinition_header_def expect_def hasType_def outcome_def newline_def
        emitToken.simps advanceWhile.simps tokenizer_defs Let_def)
  obtain r t0' where 3: "parseDefinition_header
      (EntityDefinitionClassInfo :: string EntityDefinitionClassInfo)
      (Tokenizer (newline @ ''A - B'')) = Inr (r, t0')"
    using 2 by (cases "parseDefinition_header
      (EntityDefinitionClassInfo :: string EntityDefinitionClassInfo)
      (Tokenizer (newline @ ''A - B''))") (auto simp: outcome_def)
  from parseSpawnflags_values [THEN conjunct2, rule_format, OF 1 3] 3
  show "parseDefinition_header (EntityDefinitionClassInfo :: string EntityDefinitionClassInfo)
     (Tokenizer (newline @ ''A - B'')) =
   Inr (EntityDefinitionClassInfo, Tokenizer (newline @ ''A - B''))"
    by simp
qed

text \<open>
  C3 as stated fails: in a clause of 32 flags the last one, with the index 31, has the
  value \<open>- 2 ^ 31\<close>, which is neither \<open>2 ^ 31\<close> nor greater than the value before it.
\<close>

theorem parseSpawnflags_counterexample:
  "map_sum id (drop 30 \<circ> map flagValue \<circ> flagsOptions)
     (outcome (parseSpawnflags (Tokenizer
        (''f0 f1 f2 f3 f4 f5 f6 f7 f8 f9 f10 f11 f12 f13 f14 f15 f16 f17 f18 f19 f20 f21 f22 '' @
         ''f23 f24 f25 f26 f27 f28 f29 f30 f31'' @ newline)))) =
   Inr [1073741824, - 2147483648]"
  by code_simp

subsection \<open>Colours\<close>

text \<open>
  C4. For a colour clause of three integer or decimal tokens in parentheses, each stored
  component is the single-precision value of its token, divided by 255 when that value is
  greater than 1 and unchanged otherwise, and the fourth component, alpha, is 1. The
  division is the one of the source, in single precision: the stored component is the
  value of the format nearest to the quotient.
\<close>

theorem parseColor_components:
  assumes "expect [OParenthesis] (nextToken t) = Inr (po, t0)"
    and "expect [Decimal, Integer] (nextToken t0) = Inr (k0, t1)"
    and "expect [Decimal, Integer] (nextToken t1) = Inr (k1, t2)"
    and "expect [Decimal, Integer] (nextToken t2) = Inr (k2, t3)"
    and "expect [CParenthesis] (nextToken t3) = Inr (pc, t4)"
  shows "parseColor t =
           Inr (map (\<lambda>token.
                       let raw = toFloat32 (tdata token)
                       in if float32_greater raw (Finite32 1) then float32_divide raw 255
                          else raw) [k0, k1, k2] @ [Finite32 1], t4)"
proof -
  define f :: "float32 \<Rightarrow> float32" where
    "f r = (if float32_greater r (Finite32 1) then float32_divide r 255 else r)" for r
  have l3: "parseColorLoop (Suc (Suc (Suc 0))) c t3 = Inr (c, t3)" for c
    by (subst parseColorLoop.simps) (simp add: numeral_3_eq_3)
  have l2: "parseColorLoop (Suc (Suc 0)) [x, y, z, w] t2 =
      Inr ([x, y, f (toFloat32 (tdata k2)), w], t3)" for x y z w
    using assms(4) by (subst parseColorLoop_unfold) (simp_all add: l3 f_def numeral_3_eq_3)
  have l1: "parseColorLoop (Suc 0) [x, y, z, w] t1 =
      Inr ([x, f (toFloat32 (tdata k1)), f (toFloat32 (tdata k2)), w], t3)" for x y z w
    using assms(3) by (subst parseColorLoop_unfold) (simp_all add: l2 f_def numeral_3_eq_3)
  have l0: "parseColorLoop 0 [x, y, z, w] t0 =
      Inr ([f (toFloat32 (tdata k0)), f (toFloat32 (tdata k1)), f (toFloat32 (tdata k2)), w], t3)"
    for x y z w
    using assms(2) by (subst parseColorLoop_unfold) (simp_all add: l1 f_def)
  have "parseColor t =
      Inr ([f (toFloat32 (tdata k0)), f (toFloat32 (tdata k1)), f (toFloat32 (tdata k2)),
            Finite32 1], t4)"
    using assms(1,5) by (simp add: parseColor_def l0 numeral_3_eq_3)
  then show ?thesis
    by (simp add: f_def Let_def)
qed

theorem parseColor_components_witness:
  "parseColor (Tokenizer ''(0.5 128 1)'') =
     Inr ([Finite32 (1 / 2), Finite32 (8421505 / 16777216), Finite32 1, Finite32 1],
          \<lparr>m_cur = [], m_offs = 11, m_line = 1, m_column = 12\<rparr>)"
proof -
  have 1: "expect [OParenthesis] (nextToken (Tokenizer ''(0.5 128 1)'')) =
      Inr (\<lparr>ttype = OParenthesis, tdata = ''('', toffset = 0, tline = 1, tcolumn = 1\<rparr>,
           \<lparr>m_cur = ''0.5 128 1)'', m_offs = 1, m_line = 1, m_column = 2\<rparr>)"
    by (simp add: expect_def hasType_def emitToken.simps advanceWhile.simps tokenizer_defs Let_def)
  have 2: "expect [Decimal, Integer]
        (nextToken \<lparr>m_cur = ''0.5 128 1)'', m_offs = 1, m_line = 1, m_column = 2\<rparr>) =
      Inr (\<lparr>ttype = Decimal, tdata = ''0.5'', toffset = 1, tline = 1, tcolumn = 2\<rparr>,
           \<lparr>m_cur = '' 128 1)'', m_offs = 4, m_line = 1, m_column = 5\<rparr>)"
    by (simp add: expect_def hasType_def emitToken.simps advanceWhile.simps tokenizer_defs Let_def)
  have 3: "expect [Decimal, Integer]
        (nextToken \<lparr>m_cur = '' 128 1)'', m_offs = 4, m_line = 1, m_column = 5\<rparr>) =
      Inr (\<lparr>ttype = Integer, tdata = ''128'', toffset = 5, tline = 1, tcolumn = 6\<rparr>,
           \<lparr>m_cur = '' 1)'', m_offs = 8, m_line = 1, m_column = 9\<rparr>)"
    by (simp add: expect_def hasType_def emitToken.simps advanceWhile.simps tokenizer_defs Let_def)
  have 4: "expect [Decimal, Integer]
        (nextToken \<lparr>m_cur = '' 1)'', m_offs = 8, m_line = 1, m_column = 9\<rparr>) =
      Inr (\<lparr>ttype = Integer, tdata = ''1'', toffset = 9, tline = 1, tcolumn = 10\<rparr>,
           \<lparr>m_cur = '')'', m_offs = 10, m_line = 1, m_column = 11\<rparr>)"
    by (simp add: expect_def hasType_def emitToken.simps advanceWhile.simps tokenizer_defs Let_def)
  have 5: "expect [CParenthesis]
        (nextToken \<lparr>m_cur = '')'', m_offs = 10, m_line = 1, m_column = 11\<rparr>) =
      Inr (\<lparr>ttype = CParenthesis, tdata = '')'', toffset = 10, tline = 1, tcolumn = 11\<rparr>,
           \<lparr>m_cur = [], m_offs = 11, m_line = 1, m_column = 12\<rparr>)"
    by (simp add: expect_def hasType_def emitToken.simps advanceWhile.simps tokenizer_defs Let_def)
  have raw: "toFloat32 ''0.5'' = Finite32 (1 / 2)" "toFloat32 ''128'' = Finite32 128"
    "toFloat32 ''1'' = Finite32 1"
    by code_simp+
  have quotient: "roundToFloat32 (128 / 255) = Finite32 (8421505 / 16777216)"
    by code_simp
  from parseColor_components [OF 1 2 3 4 5] show ?thesis
    by (simp add: raw quotient)
qed

lemma parseColor_rounded_to_one_example:
  "outcome (parseColor (Tokenizer ''(1.00000001 1.0 0)'')) =
     Inr [Finite32 1, Finite32 1, Finite32 0, Finite32 1]"
  by code_simp

lemma parseColor_255_example:
  "outcome (parseColor (Tokenizer ''(255 0 127.5)'')) =
     Inr [Finite32 1, Finite32 0, Finite32 (1 / 2), Finite32 1]"
  by code_simp

subsection \<open>Bounds\<close>

text \<open>
  C5. For a bounds clause of two vectors in parentheses, the stored box has, in each of
  its three components, the smaller of the two parsed corners' components as its minimum
  and the larger as its maximum, so that the minimum never exceeds the maximum, whichever
  way round the corners were written.
\<close>

theorem parseBounds_repaired:
  assumes "expect [OParenthesis] (nextToken t) = Inr (a, t0)"
    and "parseVector t0 = Inr (v1, t1)"
    and "expect [CParenthesis] (nextToken t1) = Inr (b, t2)"
    and "expect [OParenthesis] (nextToken t2) = Inr (c, t3)"
    and "parseVector t3 = Inr (v2, t4)"
    and "expect [CParenthesis] (nextToken t4) = Inr (d, t5)"
  shows "\<exists>bounds. parseBounds t = Inr (bounds, t5) \<and>
           length (bbox_min bounds) = 3 \<and> length (bbox_max bounds) = 3 \<and>
           (\<forall>i<3. bbox_min bounds ! i = min (v1 ! i) (v2 ! i) \<and>
                  bbox_max bounds ! i = max (v1 ! i) (v2 ! i) \<and>
                  bbox_min bounds ! i \<le> bbox_max bounds ! i)"
  using assms parseVector_length [OF assms(2)] parseVector_length [OF assms(5)]
  by (simp add: parseBounds_def repair_def min_le_iff_disj le_max_iff_disj)

theorem parseBounds_repaired_witness:
  "\<exists>bounds. parseBounds (Tokenizer ''(16 -16 0) (-16 16 32)'') =
            Inr (bounds, \<lparr>m_cur = [], m_offs = 22, m_line = 1, m_column = 23\<rparr>) \<and>
          length (bbox_min bounds) = 3 \<and> length (bbox_max bounds) = 3 \<and>
          (\<forall>i<3. bbox_min bounds ! i = min ([16, - 16, 0] ! i) ([- 16, 16, 32] ! i) \<and>
                 bbox_max bounds ! i = max ([16, - 16, 0] ! i) ([- 16, 16, 32] ! i) \<and>
                 bbox_min bounds ! i \<le> bbox_max bounds ! i)"
proof (rule parseBounds_repaired)
  show "expect [OParenthesis] (nextToken (Tokenizer ''(16 -16 0) (-16 16 32)'')) =
      Inr (\<lparr>ttype = OParenthesis, tdata = ''('', toffset = 0, tline = 1, tcolumn = 1\<rparr>,
           \<lparr>m_cur = ''16 -16 0) (-16 16 32)'', m_offs = 1, m_line = 1, m_column = 2\<rparr>)"
    by (simp add: expect_def hasType_def emitToken.simps advanceWhile.simps tokenizer_defs Let_def)
  show "parseVector \<lparr>m_cur = ''16 -16 0) (-16 16 32)'', m_offs = 1, m_line = 1, m_column = 2\<rparr> =
      Inr ([16, - 16, 0], \<lparr>m_cur = '') (-16 16 32)'', m_offs = 9, m_line = 1, m_column = 10\<rparr>)"
    by code_simp
  show "expect [CParenthesis]
        (nextToken \<lparr>m_cur = '') (-16 16 32)'', m_offs = 9, m_line = 1, m_column = 10\<rparr>) =
      Inr (\<lparr>ttype = CParenthesis, tdata = '')'', toffset = 9, tline = 1, tcolumn = 10\<rparr>,
           \<lparr>m_cur = '' (-16 16 32)'', m_offs = 10, m_line = 1, m_column = 11\<rparr>)"
    by (simp add: expect_def hasType_def emitToken.simps advanceWhile.simps tokenizer_defs Let_def)
  show "expect [OParenthesis]
        (nextToken \<lparr>m_cur = '' (-16 16 32)'', m_offs = 10, m_line = 1, m_column = 11\<rparr>) =
      Inr (\<lparr>ttype = OParenthesis, tdata = ''('', toffset = 11, tline = 1, tcolumn = 12\<rparr>,
           \<lparr>m_cur = ''-16 16 32)'', m_offs = 12, m_line = 1, m_column = 13\<rparr>)"
    by (simp add: expect_def hasType_def emitToken.simps advanceWhile.simps tokenizer_defs Let_def)
  show "parseVector \<lparr>m_cur = ''-16 16 32)'', m_offs = 12, m_line = 1, m_column = 13\<rparr> =
      Inr ([- 16, 16, 32], \<lparr>m_cur = '')'', m_offs = 21, m_line = 1, m_column = 22\<rparr>)"
    by code_simp
  show "expect [CParenthesis]
        (nextToken \<lparr>m_cur = '')'', m_offs = 21, m_line = 1, m_column = 22\<rparr>) =
      Inr (\<lparr>ttype = CParenthesis, tdata = '')'', toffset = 21, tline = 1, tcolumn = 22\<rparr>,
           \<lparr>m_cur = [], m_offs = 22, m_line = 1, m_column = 23\<rparr>)"
    by (simp add: expect_def hasType_def emitToken.simps advanceWhile.simps tokenizer_defs Let_def)
qed

lemma parseBounds_example:
  "outcome (parseBounds (Tokenizer ''(16 -16 0) (-16 16 32)'')) =
     Inr \<lparr>bbox_min = [- 16, - 16, 0], bbox_max = [16, 16, 32]\<rparr>"
  by code_simp

subsection \<open>All declarations or none\<close>

text \<open>
  C6. The parse of all declarations returns the complete list of descriptors or throws:
  where the first declaration throws, its exception is thrown; where it gives a
  descriptor, that descriptor heads the list of the remaining input, and when the
  remaining input throws, the same exception is thrown and the descriptor is deleted, no
  list being returned. An exception leaves as many descriptors alive as there were before
  the call, that is, all the descriptors created are released; a list returned holds all
  those created.
\<close>

theorem doParseDefinitions_all_or_nothing:
  "doParseDefinitions cl p =
     (case parseDefinition cl p of
        Inl (e, p') \<Rightarrow> Inl (e, p')
      | Inr (None, p') \<Rightarrow> Inr ([], reportProgress p')
      | Inr (Some d, p') \<Rightarrow>
          (case doParseDefinitions cl (reportProgress p') of
             Inl (e, p'') \<Rightarrow> Inl (e, p''\<lparr>liveDefinitions := liveDefinitions p'' - 1\<rparr>)
           | Inr (ds, p'') \<Rightarrow> Inr (d # ds, p''))) \<and>
   (case doParseDefinitions cl p of
      Inl (e, p') \<Rightarrow> liveDefinitions p' = liveDefinitions p
    | Inr (ds, p') \<Rightarrow> liveDefinitions p' = liveDefinitions p + length ds)"
proof
  show "doParseDefinitions cl p =
     (case parseDefinition cl p of
        Inl (e, p') \<Rightarrow> Inl (e, p')
      | Inr (None, p') \<Rightarrow> Inr ([], reportProgress p')
      | Inr (Some d, p') \<Rightarrow>
          (case doParseDefinitions cl (reportProgress p') of
             Inl (e, p'') \<Rightarrow> Inl (e, p''\<lparr>liveDefinitions := liveDefinitions p'' - 1\<rparr>)
           | Inr (ds, p'') \<Rightarrow> Inr (d # ds, p'')))"
    by (rule doParseDefinitions_unfold)
  show "case doParseDefinitions cl p of
      Inl (e, p') \<Rightarrow> liveDefinitions p' = liveDefinitions p
    | Inr (ds, p') \<Rightarrow> liveDefinitions p' = liveDefinitions p + length ds"
    using liveDefinitions_doParseDefinitionsLoop [where cl = cl and ds = "[]" and p = p]
    by (auto simp: doParseDefinitions_def split: sum.splits)
qed

lemma doParseDefinitions_second_fails_example:
  "(case doParseDefinitions exampleCollaborators
      (DefParser (''/*QUAKED light (0 1 0) ?'' @ newline @ ''a light'' @ newline @ ''*/'' @
                  newline @ ''/*QUAKED 12 (0 1 0) ?'' @ newline @ ''*/'' @ newline @
                  ''/*QUAKED lamp (0 1 0) ?'' @ newline @ ''*/'') white) of
      Inl (e, p') \<Rightarrow> (Inl e, liveDefinitions p', m_cur (m_tokenizer p'))
    | Inr (ds, p') \<Rightarrow> (Inr ds, liveDefinitions p', m_cur (m_tokenizer p'))) =
   (Inl (ParserException 4 10
           (expectString (tokenName [Word])
              \<lparr>ttype = Integer, tdata = ''12'', toffset = 45, tline = 4, tcolumn = 10\<rparr>)),
    0,
    '' (0 1 0) ?'' @ newline @ ''*/'' @ newline @ ''/*QUAKED lamp (0 1 0) ?'' @ newline @ ''*/'')"
  by code_simp

subsection \<open>Headers with a colour\<close>

text \<open>
  C7, as amended. After a colour clause the header must go on with an opening
  parenthesis or a word: a declaration whose header ends right after the colour is
  rejected with a syntax error at the token found there. A declaration whose header has
  the word \<^verbatim>\<open>?\<close> after the colour and then ends (no bounds, no spawnflags), and that has no
  attribute block, is valid: the parse of the declaration succeeds and gives a brush
  class with the name, the colour, the trimmed description and no attributes.
\<close>

theorem parseDefinition_color_without_size:
  assumes "skipToDefinition (m_tokenizer p) = Inr (od, t0)" and "ttype od = ODefinition"
    and "nextToken t0 = Inr (name, t1)" and "ttype name = Word"
    and "peekToken t1 = Inr (po, t1)" and "ttype po = OParenthesis"
    and "parseColor t1 = Inr (c, t2)"
    and "nextToken t2 = Inr (tok, t3)"
  shows "(ttype tok \<notin> {OParenthesis, Word} \<longrightarrow>
            parseDefinition cl p =
              Inl (ParserException (tline tok) (tcolumn tok)
                     (expectString (tokenName [OParenthesis, Word]) tok),
                   p\<lparr>m_tokenizer := t2\<rparr>)) \<and>
         (ttype tok = Word \<and> tdata tok = ''?'' \<longrightarrow>
            (\<forall>nl t4 x tx description t5 cd t6.
               nextToken t3 = Inr (nl, t4) \<and> ttype nl = Newline \<and>
               nextToken t4 = Inr (x, tx) \<and> ttype x \<noteq> OBrace \<and>
               parseDescription t4 = Inr (description, t5) \<and>
               nextToken t5 = Inr (cd, t6) \<and> ttype cd = CDefinition \<longrightarrow>
               parseDefinition cl p =
                 Inr (Some (BrushEntityDefinition (tdata name) c (str_trim description) []),
                      p\<lparr>m_tokenizer := t6, liveDefinitions := liveDefinitions p + 1\<rparr>)))"
proof (intro conjI impI allI)
  assume r: "ttype tok \<notin> {OParenthesis, Word}"
  from parseDefinition_header_after_color [OF assms(5-8), THEN conjunct1, rule_format, OF r]
  have h: "parseDefinition_header classInfo t1 =
      Inl (ParserException (tline tok) (tcolumn tok)
             (expectString (tokenName [OParenthesis, Word]) tok), t2)" for classInfo :: "'a EntityDefinitionClassInfo"
    .
  show "parseDefinition cl p =
      Inl (ParserException (tline tok) (tcolumn tok)
             (expectString (tokenName [OParenthesis, Word]) tok), p\<lparr>m_tokenizer := t2\<rparr>)"
    using assms(1-4)
    by (subst parseDefinition.simps)
      (simp add: parseDefinition_classInfo_def onTokenizer_def expect_def hasType_def h Let_def)
next
  fix nl t4 x tx description t5 cd t6
  assume q: "ttype tok = Word \<and> tdata tok = ''?''"
    and a: "nextToken t3 = Inr (nl, t4) \<and> ttype nl = Newline \<and>
            nextToken t4 = Inr (x, tx) \<and> ttype x \<noteq> OBrace \<and>
            parseDescription t4 = Inr (description, t5) \<and>
            nextToken t5 = Inr (cd, t6) \<and> ttype cd = CDefinition"
  from a have "\<exists>nl t4. nextToken t3 = Inr (nl, t4) \<and> ttype nl = Newline" by blast
  with q parseDefinition_header_after_color [OF assms(5-8), THEN conjunct2]
  have h: "parseDefinition_header classInfo t1 = Inr (setColor c classInfo, t3)"
    for classInfo :: "'a EntityDefinitionClassInfo"
    by blast
  have ci: "parseDefinition_classInfo cl p =
      Inr (Some (setDescription (str_trim description)
                   (setColor c (setName (tdata name) EntityDefinitionClassInfo)), []),
           p\<lparr>m_tokenizer := t6\<rparr>)"
    using assms(1-4) a
    by (simp add: parseDefinition_classInfo_def parseAttributes_def onTokenizer_def expect_def
        hasType_def peekToken_def h Let_def)
  show "parseDefinition cl p =
      Inr (Some (BrushEntityDefinition (tdata name) c (str_trim description) []),
           p\<lparr>m_tokenizer := t6, liveDefinitions := liveDefinitions p + 1\<rparr>)"
    by (subst parseDefinition.simps)
      (simp add: ci hasColor_def hasSize_def color_def setDescription_def setColor_def
        setName_def EntityDefinitionClassInfo_def Let_def)
qed

theorem parseDefinition_color_without_size_witness:
  "parseDefinition exampleCollaborators
     (DefParser (''/*QUAKED light (0 1 0) ?'' @ newline @ ''a light'' @ newline @ ''*/'') white) =
   Inr (Some (BrushEntityDefinition ''light''
                [Finite32 0, Finite32 1, Finite32 0, Finite32 1] ''a light'' []),
        (DefParser (''/*QUAKED light (0 1 0) ?'' @ newline @ ''a light'' @ newline @ ''*/'') white)
          \<lparr>m_tokenizer := \<lparr>m_cur = ''/'', m_offs = 34, m_line = 3, m_column = 2\<rparr>,
           liveDefinitions := 1\<rparr>)"
proof -
  let ?body = "''a light'' @ newline @ ''*/''"
  let ?p = "DefParser (''/*QUAKED light (0 1 0) ?'' @ newline @ ?body) white
            :: string DefParser"
  let ?t0 = "\<lparr>m_cur = '' light (0 1 0) ?'' @ newline @ ?body, m_offs = 8, m_line = 1,
              m_column = 9\<rparr>"
  let ?t1 = "\<lparr>m_cur = '' (0 1 0) ?'' @ newline @ ?body, m_offs = 14, m_line = 1,
              m_column = 15\<rparr>"
  let ?t2 = "\<lparr>m_cur = '' ?'' @ newline @ ?body, m_offs = 22, m_line = 1, m_column = 23\<rparr>"
  let ?t3 = "\<lparr>m_cur = newline @ ?body, m_offs = 24, m_line = 1, m_column = 25\<rparr>"
  let ?t4 = "\<lparr>m_cur = ?body, m_offs = 25, m_line = 2, m_column = 1\<rparr>"
  let ?t5 = "\<lparr>m_cur = ''*/'', m_offs = 33, m_line = 3, m_column = 1\<rparr>"
  let ?t6 = "\<lparr>m_cur = ''/'', m_offs = 34, m_line = 3, m_column = 2\<rparr>"
  let ?od = "\<lparr>ttype = ODefinition, tdata = ''/*QUAKED'', toffset = 0, tline = 1, tcolumn = 1\<rparr>"
  let ?name = "\<lparr>ttype = Word, tdata = ''light'', toffset = 9, tline = 1, tcolumn = 10\<rparr>"
  let ?po = "\<lparr>ttype = OParenthesis, tdata = ''('', toffset = 15, tline = 1, tcolumn = 16\<rparr>"
  let ?tok = "\<lparr>ttype = Word, tdata = ''?'', toffset = 23, tline = 1, tcolumn = 24\<rparr>"
  have 1: "skipToDefinition (m_tokenizer ?p) = Inr (?od, ?t0)" "ttype ?od = ODefinition"
    by code_simp+
  have 2: "nextToken ?t0 = Inr (?name, ?t1)" "ttype ?name = Word"
    by code_simp+
  have 3: "peekToken ?t1 = Inr (?po, ?t1)" "ttype ?po = OParenthesis"
    by code_simp+
  have 4: "parseColor ?t1 = Inr ([Finite32 0, Finite32 1, Finite32 0, Finite32 1], ?t2)"
    by code_simp
  have 5: "nextToken ?t2 = Inr (?tok, ?t3)"
    by code_simp
  have 6: "ttype ?tok = Word \<and> tdata ?tok = ''?''"
    by simp
  have 7: "nextToken ?t3 =
             Inr (\<lparr>ttype = Newline, tdata = newline, toffset = 24, tline = 1, tcolumn = 25\<rparr>,
                  ?t4) \<and>
           ttype \<lparr>ttype = Newline, tdata = newline, toffset = 24, tline = 1, tcolumn = 25\<rparr> =
             Newline \<and>
           nextToken ?t4 =
             Inr (\<lparr>ttype = Word, tdata = ''a'', toffset = 25, tline = 2, tcolumn = 1\<rparr>,
                  \<lparr>m_cur = '' light'' @ newline @ ''*/'', m_offs = 26, m_line = 2,
                     m_column = 2\<rparr>) \<and>
           ttype \<lparr>ttype = Word, tdata = ''a'', toffset = 25, tline = 2, tcolumn = 1\<rparr> \<noteq>
             OBrace \<and>
           parseDescription ?t4 = Inr (''a light'' @ newline, ?t5) \<and>
           nextToken ?t5 =
             Inr (\<lparr>ttype = CDefinition, tdata = ''*'', toffset = 33, tline = 3, tcolumn = 1\<rparr>,
                  ?t6) \<and>
           ttype \<lparr>ttype = CDefinition, tdata = ''*'', toffset = 33, tline = 3, tcolumn = 1\<rparr> =
             CDefinition"
    by code_simp
  have 8: "str_trim (''a light'' @ newline) = ''a light''"
    by code_simp
  from parseDefinition_color_without_size [OF 1 2 3 4 5, of exampleCollaborators,
      THEN conjunct2, rule_format, OF 6 7]
  show ?thesis
    unfolding 8 by (simp add: DefParser_def)
qed

text \<open>
  C7 as stated fails: a declaration whose header is a name and a colour, with nothing after
  the colour on the line, is rejected at the newline.
\<close>

theorem parseDefinition_color_only_counterexample:
  "outcome (doParseDefinitions exampleCollaborators
     (DefParser (''/*QUAKED light (0 1 0)'' @ newline @ ''a light'' @ newline @ ''*/'')
        white)) =
   Inl (ParserException 1 23
          (expectString (tokenName [OParenthesis, Word])
             \<lparr>ttype = Newline, tdata = newline, toffset = 22, tline = 1, tcolumn = 23\<rparr>))"
  by code_simp

lemma parseDefinition_color_and_question_mark_example:
  "outcome (doParseDefinitions exampleCollaborators
     (DefParser (''/*QUAKED light (0 1 0) ?'' @ newline @ ''a light'' @ newline @ ''*/'')
        white)) =
   Inr [BrushEntityDefinition ''light'' [Finite32 0, Finite32 1, Finite32 0, Finite32 1] ''a light'' []]"
  by code_simp

subsection \<open>Other attribute words\<close>

text \<open>
  C8, as amended. A leading word other than \<^verbatim>\<open>default\<close>, \<^verbatim>\<open>base\<close>, \<^verbatim>\<open>choice\<close> and \<^verbatim>\<open>model\<close>
  has no clause of its own and is not an error: the attribute is accepted, with the class
  information and the base-class names unchanged, when the next token after the word
  (newlines skipped) is a semicolon, and the syntax error of a missing semicolon is raised
  when it is not.
\<close>

theorem parseAttribute_other_word:
  assumes "onTokenizer nextTokenIgnoringNewlines p = Inr (token, p1)"
    and "ttype token = Word"
    and "tdata token \<notin> {''default'', ''base'', ''choice'', ''model''}"
  shows "parseAttribute cl classInfo superClasses p =
     (case onTokenizer nextTokenIgnoringNewlines p1 of
        Inl x \<Rightarrow> Inl x
      | Inr (tok, p2) \<Rightarrow>
          if ttype tok = Semicolon then Inr ((True, classInfo, superClasses), p2)
          else Inl (ParserException (tline tok) (tcolumn tok)
                      (expectString (tokenName [Semicolon]) tok), p2))"
  using assms
  by (auto simp: parseAttribute_def expect_def hasType_def Let_def andThen_def
      split: sum.splits)

theorem parseAttribute_other_word_witness:
  "parseAttribute exampleCollaborators EntityDefinitionClassInfo []
     (DefParser '' foo; }'' white) =
   Inr ((True, EntityDefinitionClassInfo, []),
        (DefParser '' foo; }'' white)
          \<lparr>m_tokenizer := \<lparr>m_cur = '' }'', m_offs = 5, m_line = 1, m_column = 6\<rparr>\<rparr>)"
  using parseAttribute_other_word
    [of "DefParser '' foo; }'' white"
        "\<lparr>ttype = Word, tdata = ''foo'', toffset = 1, tline = 1, tcolumn = 2\<rparr>"
        "(DefParser '' foo; }'' white)
           \<lparr>m_tokenizer := \<lparr>m_cur = ''; }'', m_offs = 4, m_line = 1, m_column = 5\<rparr>\<rparr>"
        exampleCollaborators EntityDefinitionClassInfo "[]"]
  by (simp add: DefParser_def onTokenizer_def nextTokenIgnoringNewlines.simps emitToken.simps
      advanceWhile.simps tokenizer_defs Let_def)

text \<open>
  C8 as stated fails: a declaration whose attribute block holds the attribute \<^verbatim>\<open>foo;\<close> parses.
\<close>

theorem parseAttribute_other_word_counterexample:
  "outcome (doParseDefinitions exampleCollaborators
     (DefParser (''/*QUAKED light (0 1 0) ?'' @ newline @ ''{'' @ newline @ ''foo;'' @ newline @
                 ''}'' @ newline @ ''*/'') white)) =
   Inr [BrushEntityDefinition ''light'' [Finite32 0, Finite32 1, Finite32 0, Finite32 1] [] []]"
  by code_simp

subsection \<open>Block-comment-close tokens\<close>

text \<open>
  At a \<^verbatim>\<open>/\<close> followed by a character other than \<^verbatim>\<open>*\<close> and \<^verbatim>\<open>/\<close>, the switch falls through the case
  of \<^verbatim>\<open>*\<close> into the case of \<^verbatim>\<open>(\<close>: the token returned is an opening parenthesis spanning the
  \<^verbatim>\<open>/\<close>.
\<close>

lemma emitToken_slash_falls_through:
  "c \<noteq> CHR ''*'' \<Longrightarrow> c \<noteq> CHR ''/'' \<Longrightarrow>
   emitToken \<lparr>m_cur = CHR ''/'' # c # rest, m_offs = off, m_line = l, m_column = n\<rparr> =
     Inr (\<lparr>ttype = OParenthesis, tdata = ''/'', toffset = off, tline = l, tcolumn = n\<rparr>,
          \<lparr>m_cur = c # rest, m_offs = off + 1, m_line = l, m_column = n + 1\<rparr>)"
  by (subst emitToken.simps)
    (simp add: eof_def curChar_def lookAhead_def caseStar_def caseOParenthesis_def
      singleCharToken_def advance_def)

text \<open>
  C9, as amended. At a \<^verbatim>\<open>*\<close> that a \<^verbatim>\<open>/\<close> follows, the scanner returns a block-comment-close
  token. (In the state returned the \<^verbatim>\<open>*\<close> is consumed and the \<^verbatim>\<open>/\<close> is the current character.)
\<close>

theorem emitToken_star_slash:
  "emitToken \<lparr>m_cur = CHR ''*'' # CHR ''/'' # rest, m_offs = off, m_line = l, m_column = c\<rparr> =
     Inr (\<lparr>ttype = CDefinition, tdata = ''*'', toffset = off, tline = l, tcolumn = c\<rparr>,
          \<lparr>m_cur = CHR ''/'' # rest, m_offs = off + 1, m_line = l, m_column = c + 1\<rparr>)"
  by (subst emitToken.simps)
    (simp add: eof_def curChar_def lookAhead_def caseStar_def advance_def textBetween_def)

text \<open>
  C9 as stated fails. At a \<^verbatim>\<open>/\<close> followed by neither \<^verbatim>\<open>*\<close> nor \<^verbatim>\<open>/\<close> the switch falls through
  the case of \<^verbatim>\<open>*\<close> into the case of \<^verbatim>\<open>(\<close>, and the token returned is an opening
  parenthesis; at \<^verbatim>\<open>*/\<close> the token is a block-comment-close, with the \<^verbatim>\<open>/\<close> left in the input.
\<close>

theorem emitToken_slash_counterexample:
  "emitToken (Tokenizer ''/a'') =
     Inr (\<lparr>ttype = OParenthesis, tdata = ''/'', toffset = 0, tline = 1, tcolumn = 1\<rparr>,
          \<lparr>m_cur = ''a'', m_offs = 1, m_line = 1, m_column = 2\<rparr>) \<and>
   emitToken (Tokenizer ''*/'') =
     Inr (\<lparr>ttype = CDefinition, tdata = ''*'', toffset = 0, tline = 1, tcolumn = 1\<rparr>,
          \<lparr>m_cur = ''/'', m_offs = 1, m_line = 1, m_column = 2\<rparr>)"
  by (simp add: emitToken.simps tokenizer_defs Let_def)

subsection \<open>Choice attributes without options\<close>

text \<open>
  C10. A choice attribute with no options parses: after the word \<^verbatim>\<open>choice\<close>, a quoted name,
  an opening parenthesis and at once the closing parenthesis (newlines between them are
  skipped) give a choice attribute definition with the name and an empty list of options.
\<close>

theorem parseChoiceAttribute_no_options:
  assumes "nextToken t = Inr (n, t1)" and "ttype n = QuotedString"
    and "nextTokenIgnoringNewlines t1 = Inr (po, t2)" and "ttype po = OParenthesis"
    and "nextTokenIgnoringNewlines t2 = Inr (pc, t3)" and "ttype pc = CParenthesis"
  shows "parseChoiceAttribute t = Inr (ChoiceAttributeDefinition (tdata n) [] [] [] False, t3)"
  using assms
  by (simp add: parseChoiceAttribute_def expect_def hasType_def Let_def parseChoiceOptions.simps)

theorem parseChoiceAttribute_no_options_witness:
  "parseChoiceAttribute (Tokenizer ('' '' @ quoted ''ch'' @ '' ()'')) =
     Inr (ChoiceAttributeDefinition ''ch'' [] [] [] False,
          \<lparr>m_cur = [], m_offs = 8, m_line = 1, m_column = 9\<rparr>)"
  using parseChoiceAttribute_no_options
    [of "Tokenizer ('' '' @ quoted ''ch'' @ '' ()'')"
        "\<lparr>ttype = QuotedString, tdata = ''ch'', toffset = 2, tline = 1, tcolumn = 2\<rparr>"
        "\<lparr>m_cur = '' ()'', m_offs = 5, m_line = 1, m_column = 6\<rparr>"
        "\<lparr>ttype = OParenthesis, tdata = ''('', toffset = 6, tline = 1, tcolumn = 7\<rparr>"
        "\<lparr>m_cur = '')'', m_offs = 7, m_line = 1, m_column = 8\<rparr>"
        "\<lparr>ttype = CParenthesis, tdata = '')'', toffset = 7, tline = 1, tcolumn = 8\<rparr>"
        "\<lparr>m_cur = [], m_offs = 8, m_line = 1, m_column = 9\<rparr>"]
  by (simp add: quoted_def nextTokenIgnoringNewlines.simps emitToken.simps advanceWhile.simps
      tokenizer_defs Let_def)

end
